theory Spec2Isabelle
  imports Complex_Main "HOL-Library.Sublist" "HOL-Library.Char_ord" "HOL-Library.List_Lexorder"
begin

section \<open>JavaScript strings\<close>

text \<open>
  A JavaScript string is a sequence of code units. The model uses \<^typ>\<open>string\<close>, so a
  code unit is one of the 256 values of \<^typ>\<open>char\<close>, read as the Latin-1 range
  U+0000..U+00FF of UTF-16. Everything below that classifies characters (white space, line
  terminators, letter case) is the ECMAScript definition restricted to that range.
\<close>

definition isWhiteSpace :: "char \<Rightarrow> bool" where
  \<comment> \<open>\<open>\s\<close> and the characters removed by \<open>trim\<close>: TAB, LF, VT, FF, CR, SP, NBSP.\<close>
  "isWhiteSpace c \<longleftrightarrow>
     c = CHR 0x09 \<or> c = CHR 0x0A \<or> c = CHR 0x0B \<or> c = CHR 0x0C \<or> c = CHR 0x0D \<or>
     c = CHR 0x20 \<or> c = CHR 0xA0"

definition isLineTerminator :: "char \<Rightarrow> bool" where
  \<comment> \<open>the characters that \<open>.\<close> does not match\<close>
  "isLineTerminator c \<longleftrightarrow> c = CHR 0x0A \<or> c = CHR 0x0D"

definition isDigit :: "char \<Rightarrow> bool" where
  \<comment> \<open>\<open>\d\<close>, \<open>[0-9]\<close>\<close>
  "isDigit c \<longleftrightarrow> CHR ''0'' \<le> c \<and> c \<le> CHR ''9''"

definition isAlpha :: "char \<Rightarrow> bool" where
  \<comment> \<open>\<open>[a-zA-Z]\<close>\<close>
  "isAlpha c \<longleftrightarrow> (CHR ''a'' \<le> c \<and> c \<le> CHR ''z'') \<or> (CHR ''A'' \<le> c \<and> c \<le> CHR ''Z'')"

definition isHexDigit :: "char \<Rightarrow> bool" where
  \<comment> \<open>\<open>[0-9a-fA-F]\<close>\<close>
  "isHexDigit c \<longleftrightarrow>
     (CHR ''0'' \<le> c \<and> c \<le> CHR ''9'') \<or> (CHR ''a'' \<le> c \<and> c \<le> CHR ''f'') \<or>
     (CHR ''A'' \<le> c \<and> c \<le> CHR ''F'')"

definition isKeyChar :: "char \<Rightarrow> bool" where
  \<comment> \<open>\<open>[a-zA-Z0-9_-]\<close>\<close>
  "isKeyChar c \<longleftrightarrow> isAlpha c \<or> isDigit c \<or> c = CHR ''_'' \<or> c = CHR ''-''"

definition trimStart :: "string \<Rightarrow> string" where
  "trimStart s = dropWhile isWhiteSpace s"

definition trimEnd :: "string \<Rightarrow> string" where
  "trimEnd s = rev (dropWhile isWhiteSpace (rev s))"

definition trim :: "string \<Rightarrow> string" where
  "trim s = trimEnd (trimStart s)"

definition lowerChar :: "char \<Rightarrow> char" where
  \<comment> \<open>A..Z and the Latin-1 capitals U+00C0..U+00DE (without the sign U+00D7) have a
      lower-case form 32 code points up; every other character is unchanged.\<close>
  "lowerChar c =
     (if (CHR ''A'' \<le> c \<and> c \<le> CHR ''Z'') \<or> (CHR 0xC0 \<le> c \<and> c \<le> CHR 0xDE \<and> c \<noteq> CHR 0xD7)
      then char_of (of_char c + (32::nat)) else c)"

definition toLowerCase :: "string \<Rightarrow> string" where
  "toLowerCase s = map lowerChar s"

definition indexOf :: "string \<Rightarrow> char \<Rightarrow> int" where
  \<comment> \<open>\<open>s.indexOf(c)\<close> for a one-character search string: the first index, or -1\<close>
  "indexOf s c = (if c \<in> set s then int (length (takeWhile (\<lambda>x. x \<noteq> c) s)) else - 1)"

definition clampIndex :: "string \<Rightarrow> int \<Rightarrow> nat" where
  "clampIndex s i = nat (min (max i 0) (int (length s)))"

definition substring :: "string \<Rightarrow> int \<Rightarrow> int \<Rightarrow> string" where
  \<comment> \<open>\<open>s.substring(a, b)\<close>: both indices are clamped to \<open>[0, length]\<close> and swapped
      when \<open>a > b\<close>\<close>
  "substring s a b =
     (let i = clampIndex s a; j = clampIndex s b
      in take (max i j - min i j) (drop (min i j) s))"

definition substringFrom :: "string \<Rightarrow> int \<Rightarrow> string" where
  \<comment> \<open>\<open>s.substring(a)\<close>\<close>
  "substringFrom s a = drop (clampIndex s a) s"

fun split :: "string \<Rightarrow> char \<Rightarrow> string list" where
  \<comment> \<open>\<open>s.split(c)\<close> for a one-character separator; the result is never empty\<close>
  "split [] c = [[]]"
| "split (x # xs) c =
     (if x = c then [] # split xs c
      else (case split xs c of [] \<Rightarrow> [[x]] | h # t \<Rightarrow> (x # h) # t))"

fun join :: "string list \<Rightarrow> string \<Rightarrow> string" where
  "join [] sep = []"
| "join [x] sep = x"
| "join (x # y # ys) sep = x @ sep @ join (y # ys) sep"

definition includesStr :: "string \<Rightarrow> string \<Rightarrow> bool" where
  \<comment> \<open>\<open>s.includes(p)\<close>\<close>
  "includesStr s p \<longleftrightarrow> sublist p s"

definition startsWith :: "string \<Rightarrow> string \<Rightarrow> bool" where
  "startsWith s p \<longleftrightarrow> prefix p s"

definition endsWith :: "string \<Rightarrow> string \<Rightarrow> bool" where
  "endsWith s p \<longleftrightarrow> suffix p s"

definition elemAt :: "'a list \<Rightarrow> nat \<Rightarrow> 'a option" where
  \<comment> \<open>\<open>xs[i]\<close>; \<open>undefined\<close> out of range is \<open>None\<close>\<close>
  "elemAt xs i = (if i < length xs then Some (xs ! i) else None)"


section \<open>Regular expressions\<close>

text \<open>
  The regular expressions of the source are written as terms of \<open>regex\<close> and run by
  Brzozowski derivatives. A character class is a predicate on characters. \<open>test\<close> on an
  expression anchored by \<open>^\<close> and \<open>$\<close> is \<open>matches\<close>: the whole string is in the
  language.
\<close>

datatype regex =
    Zero
  | One
  | Atom "char \<Rightarrow> bool"
  | Plus regex regex
  | Times regex regex
  | Star regex

fun nullable :: "regex \<Rightarrow> bool" where
  "nullable Zero = False"
| "nullable One = True"
| "nullable (Atom p) = False"
| "nullable (Plus r s) = (nullable r \<or> nullable s)"
| "nullable (Times r s) = (nullable r \<and> nullable s)"
| "nullable (Star r) = True"

fun deriv :: "char \<Rightarrow> regex \<Rightarrow> regex" where
  "deriv c Zero = Zero"
| "deriv c One = Zero"
| "deriv c (Atom p) = (if p c then One else Zero)"
| "deriv c (Plus r s) = Plus (deriv c r) (deriv c s)"
| "deriv c (Times r s) =
     (if nullable r then Plus (Times (deriv c r) s) (deriv c s) else Times (deriv c r) s)"
| "deriv c (Star r) = Times (deriv c r) (Star r)"

fun matches :: "regex \<Rightarrow> string \<Rightarrow> bool" where
  "matches r [] = nullable r"
| "matches r (c # cs) = matches (deriv c r) cs"

definition Chr :: "char \<Rightarrow> regex" where
  \<comment> \<open>a literal character\<close>
  "Chr c = Atom (\<lambda>x. x = c)"

definition Opt :: "regex \<Rightarrow> regex" where
  \<comment> \<open>\<open>r?\<close>\<close>
  "Opt r = Plus One r"

definition Some1 :: "regex \<Rightarrow> regex" where
  \<comment> \<open>\<open>r+\<close>\<close>
  "Some1 r = Times r (Star r)"

fun Rep :: "nat \<Rightarrow> regex \<Rightarrow> regex" where
  \<comment> \<open>\<open>r{n}\<close>\<close>
  "Rep 0 r = One"
| "Rep (Suc n) r = Times r (Rep n r)"

fun Lit :: "string \<Rightarrow> regex" where
  \<comment> \<open>a literal string\<close>
  "Lit [] = One"
| "Lit (c # cs) = Times (Chr c) (Lit cs)"


section \<open>Numbers\<close>

text \<open>
  A JavaScript number is a double: NaN, an infinity, or a finite value, which is a
  rational. The rounding of a decimal literal to the nearest double and the printing of a
  number are the engine's; the model takes both as parameters (\<open>roundMV\<close> and
  \<open>numberToString\<close>) and fixes everything else of \<open>parseFloat\<close>: the white space
  skipped, the sign, and the longest prefix that is a decimal literal.
\<close>

datatype number = NaN | NegInfinity | Finite rat | PosInfinity

fun lessThan :: "number \<Rightarrow> number \<Rightarrow> bool" where
  \<comment> \<open>\<open>a < b\<close>: false whenever an operand is NaN\<close>
  "lessThan NaN b = False"
| "lessThan a NaN = False"
| "lessThan a NegInfinity = False"
| "lessThan NegInfinity b = True"
| "lessThan PosInfinity b = False"
| "lessThan (Finite x) PosInfinity = True"
| "lessThan (Finite x) (Finite y) = (x < y)"

definition greaterThan :: "number \<Rightarrow> number \<Rightarrow> bool" where
  \<comment> \<open>\<open>a > b\<close>\<close>
  "greaterThan a b = lessThan b a"

definition isNaN :: "number \<Rightarrow> bool" where
  "isNaN n \<longleftrightarrow> n = NaN"

definition digitsValue :: "string \<Rightarrow> nat" where
  "digitsValue ds = foldl (\<lambda>n c. 10 * n + (of_char c - 48)) 0 ds"

definition scanExponent :: "string \<Rightarrow> int" where
  \<comment> \<open>the exponent part at the head of the text, when there is a complete one
      (\<open>e\<close> or \<open>E\<close>, an optional sign, at least one digit); 0 otherwise\<close>
  "scanExponent s =
     (case s of
        [] \<Rightarrow> 0
      | c # r \<Rightarrow>
          if c = CHR ''e'' \<or> c = CHR ''E'' then
            (let neg = (case r of [] \<Rightarrow> False | d # _ \<Rightarrow> d = CHR ''-'');
                 r' = (case r of [] \<Rightarrow> [] | d # t \<Rightarrow> if d = CHR ''+'' \<or> d = CHR ''-'' then t else r);
                 ds = takeWhile isDigit r'
             in if ds = [] then 0
                else if neg then - int (digitsValue ds) else int (digitsValue ds))
          else 0)"

definition scanDecimal :: "string \<Rightarrow> (string \<times> string \<times> int) option" where
  \<comment> \<open>the longest prefix that is an unsigned decimal literal, as its integer digits,
      fraction digits and exponent: \<open>digits . digits? exp?\<close>, \<open>. digits exp?\<close> or
      \<open>digits exp?\<close>\<close>
  "scanDecimal s =
     (let ip = takeWhile isDigit s; r1 = dropWhile isDigit s
      in case r1 of
           [] \<Rightarrow> if ip = [] then None else Some (ip, [], 0)
         | c # r2 \<Rightarrow>
             if c = CHR ''.'' then
               (let fp = takeWhile isDigit r2; r3 = dropWhile isDigit r2
                in if ip = [] \<and> fp = [] then None else Some (ip, fp, scanExponent r3))
             else if ip = [] then None
             else Some (ip, [], scanExponent r1))"

definition decimalValue :: "string \<Rightarrow> string \<Rightarrow> int \<Rightarrow> rat" where
  \<comment> \<open>the mathematical value of \<open>ip.fp\<close> times ten to the \<open>e\<close>\<close>
  "decimalValue ip fp e =
     (let m = of_nat (digitsValue (ip @ fp)); k = e - int (length fp)
      in if 0 \<le> k then m * 10 ^ nat k else m / 10 ^ nat (- k))"

definition parseFloat :: "(rat \<Rightarrow> number) \<Rightarrow> string \<Rightarrow> number" where
  "parseFloat roundMV s =
     (let t = trimStart s;
          neg = (case t of [] \<Rightarrow> False | c # _ \<Rightarrow> c = CHR ''-'');
          u = (case t of [] \<Rightarrow> [] | c # r \<Rightarrow> if c = CHR ''+'' \<or> c = CHR ''-'' then r else t)
      in if startsWith u ''Infinity'' then (if neg then NegInfinity else PosInfinity)
         else (case scanDecimal u of
                 None \<Rightarrow> NaN
               | Some (ip, fp, e) \<Rightarrow>
                   roundMV (if neg then - decimalValue ip fp e else decimalValue ip fp e)))"

section \<open>The data model (types)\<close>

datatype ConfigValueType =
  TString | TNumber | TBoolean | TColor | TEnum | TKeybind | TPath | TPercentage | TDuration | TTheme

fun typeName :: "ConfigValueType \<Rightarrow> string" where
  "typeName TString = ''string''"
| "typeName TNumber = ''number''"
| "typeName TBoolean = ''boolean''"
| "typeName TColor = ''color''"
| "typeName TEnum = ''enum''"
| "typeName TKeybind = ''keybind''"
| "typeName TPath = ''path''"
| "typeName TPercentage = ''percentage''"
| "typeName TDuration = ''duration''"
| "typeName TTheme = ''theme''"

datatype Platform = Macos | Linux

fun platformName :: "Platform \<Rightarrow> string" where
  "platformName Macos = ''macos''"
| "platformName Linux = ''linux''"

text \<open>An optional field is an \<open>option\<close>: \<open>None\<close> is \<open>undefined\<close>.\<close>

record ConfigOption =
  opt_type :: ConfigValueType
  opt_description :: string
  opt_repeatable :: "bool option"
  opt_deprecated :: "bool option"
  opt_enum :: "string list option"
  opt_examples :: "string list option"
  opt_platforms :: "Platform list option"
  opt_minimum :: "number option"
  opt_maximum :: "number option"
  opt_pattern :: "string option"
  opt_default :: "string option"

record TypeDefinition =
  td_description :: string
  td_patterns :: "string list option"
  td_validValues :: "string list option"
  td_namedValues :: "string list option"
  td_prefixes :: "string list option"
  td_modifiers :: "string list option"
  td_actions :: "string list option"

text \<open>
  \<open>options\<close> and \<open>types\<close> are plain objects used as dictionaries. They are association
  lists of the object's own entries, in the order \<open>Object.entries\<close> enumerates them.
  A read \<open>obj[key]\<close> with an arbitrary key looks among the own entries first and then
  along the prototype chain: for a key that is a member of \<open>Object.prototype\<close> it yields
  that member, a function or object (truthy, and with none of the fields of an option),
  and \<open>undefined\<close> for any other key.
\<close>

record GhosttySchema =
  version :: string
  description :: string
  options :: "(string \<times> ConfigOption) list"
  types :: "(string \<times> TypeDefinition) list"
  repeatableKeys :: "string list"

definition objectPrototypeKeys :: "string list" where
  \<comment> \<open>the property names of \<open>Object.prototype\<close>\<close>
  "objectPrototypeKeys =
     [''constructor'', ''__defineGetter__'', ''__defineSetter__'', ''hasOwnProperty'',
      ''__lookupGetter__'', ''__lookupSetter__'', ''isPrototypeOf'', ''propertyIsEnumerable'',
      ''toString'', ''valueOf'', ''__proto__'', ''toLocaleString'']"

datatype 'a property = Absent | Inherited | Own 'a

definition getProperty :: "(string \<times> 'a) list \<Rightarrow> string \<Rightarrow> 'a property" where
  \<comment> \<open>\<open>obj[key]\<close>: an own entry, a member of \<open>Object.prototype\<close>, or \<open>undefined\<close>\<close>
  "getProperty obj key =
     (case map_of obj key of
        Some v \<Rightarrow> Own v
      | None \<Rightarrow> if key \<in> set objectPrototypeKeys then Inherited else Absent)"

datatype LineType = Comment | KeyValue | Empty | Invalid

record Range =
  range_start :: int
  range_end :: int

record ParsedLine =
  pl_type :: LineType
  lineNumber :: nat
  pl_key :: "string option"
  pl_value :: "string option"
  keyRange :: "Range option"
  valueRange :: "Range option"
  raw :: string

datatype Severity = Error | Warning | Info | Hint

record ValidationResult =
  isValid :: bool
  message :: "string option"
  severity :: "Severity option"

definition valid :: ValidationResult where
  \<comment> \<open>\<open>{ isValid: true }\<close>\<close>
  "valid = \<lparr>isValid = True, message = None, severity = None\<rparr>"

definition invalid :: "string \<Rightarrow> Severity \<Rightarrow> ValidationResult" where
  \<comment> \<open>\<open>{ isValid: false, message: m, severity: s }\<close>\<close>
  "invalid m s = \<lparr>isValid = False, message = Some m, severity = Some s\<rparr>"


section \<open>Validators\<close>

definition HEX_COLOR_REGEX :: regex where
  \<comment> \<open>\<open>/^#[0-9a-fA-F]{3}$|^#[0-9a-fA-F]{6}$|^#[0-9a-fA-F]{8}$/\<close>\<close>
  "HEX_COLOR_REGEX =
     Plus (Times (Chr CHR ''#'') (Rep 3 (Atom isHexDigit)))
       (Plus (Times (Chr CHR ''#'') (Rep 6 (Atom isHexDigit)))
             (Times (Chr CHR ''#'') (Rep 8 (Atom isHexDigit))))"

definition HEX_COLOR_NO_HASH_REGEX :: regex where
  \<comment> \<open>\<open>/^[0-9a-fA-F]{6}$/\<close>\<close>
  "HEX_COLOR_NO_HASH_REGEX = Rep 6 (Atom isHexDigit)"

definition NAMED_COLORS :: "string list" where
  "NAMED_COLORS =
     [''black'', ''red'', ''green'', ''yellow'', ''blue'', ''magenta'', ''cyan'', ''white'',
      ''gray'', ''grey'', ''darkred'', ''darkgreen'', ''darkyellow'', ''darkblue'',
      ''darkmagenta'', ''darkcyan'', ''lightgray'', ''lightgrey'', ''lightred'',
      ''lightgreen'', ''lightyellow'', ''lightblue'', ''lightmagenta'', ''lightcyan'',
      ''orange'', ''pink'', ''purple'', ''brown'', ''gold'', ''silver'', ''navy'', ''maroon'',
      ''olive'', ''lime'', ''aqua'', ''teal'', ''fuchsia'', ''transparent'',
      ''cell-foreground'', ''cell-background'', ''background'', ''extend'', ''extend-always'']"

definition BOOLEAN_VALUES :: "string list" where
  "BOOLEAN_VALUES = [''true'', ''false'', ''yes'', ''no'', ''on'', ''off'']"

definition validateBoolean :: "string \<Rightarrow> ValidationResult" where
  "validateBoolean value =
     (let normalised = toLowerCase value
      in if normalised \<in> set BOOLEAN_VALUES then valid
         else invalid (''Invalid boolean value: '' @ [CHR 0x27] @ value @ [CHR 0x27]
                         @ ''. Expected one of: true, false, yes, no, on, off'') Error)"

definition validateNumber ::
  "(rat \<Rightarrow> number) \<Rightarrow> (number \<Rightarrow> string) \<Rightarrow> string \<Rightarrow> ConfigOption option \<Rightarrow> ValidationResult" where
  "validateNumber roundMV numberToString value option =
     (let num = parseFloat roundMV value
      in if isNaN num then
           invalid (''Invalid number: '' @ [CHR 0x27] @ value @ [CHR 0x27]) Error
         else
           (case option of
              None \<Rightarrow> valid
            | Some opt \<Rightarrow>
                (case (case opt_minimum opt of
                         None \<Rightarrow> None
                       | Some minimum \<Rightarrow> if lessThan num minimum then Some minimum else None) of
                   Some minimum \<Rightarrow>
                     invalid (''Value '' @ numberToString num @ '' is below minimum ''
                                @ numberToString minimum) Error
                 | None \<Rightarrow>
                     (case (case opt_maximum opt of
                              None \<Rightarrow> None
                            | Some maximum \<Rightarrow>
                                if greaterThan num maximum then Some maximum else None) of
                        Some maximum \<Rightarrow>
                          invalid (''Value '' @ numberToString num @ '' is above maximum ''
                                     @ numberToString maximum) Error
                      | None \<Rightarrow> valid))))"

definition validateColor :: "string \<Rightarrow> ValidationResult" where
  "validateColor value =
     (if matches HEX_COLOR_REGEX value \<or> matches HEX_COLOR_NO_HASH_REGEX value then valid
      else if toLowerCase value \<in> set NAMED_COLORS then valid
      else invalid (''Invalid colour: '' @ [CHR 0x27] @ value @ [CHR 0x27]
                      @ ''. Expected hex (#RGB, #RRGGBB, #RRGGBBAA) or named colour'') Error)"

definition validateEnum :: "string \<Rightarrow> ConfigOption \<Rightarrow> ValidationResult" where
  "validateEnum value option =
     (case opt_enum option of
        None \<Rightarrow> valid
      | Some enum \<Rightarrow>
          if value \<in> set enum then valid
          else invalid (''Invalid value: '' @ [CHR 0x27] @ value @ [CHR 0x27]
                          @ ''. Expected one of: '' @ join enum '', '') Error)"

definition validateKeybind :: "string \<Rightarrow> GhosttySchema \<Rightarrow> ValidationResult" where
  "validateKeybind value schema =
     (if value = ''clear'' then valid
      else
        (let equalsIndex = indexOf value CHR ''=''
         in if equalsIndex = - 1 then
              invalid ''Invalid keybind format. Expected: [prefix:]trigger=action[:param]'' Error
            else
              (let trigger = substring value 0 equalsIndex;
                   actionPart = substringFrom value (equalsIndex + 1)
               in if trim trigger = [] then invalid ''Keybind trigger cannot be empty'' Error
                  else
                    (let actionName = (case split actionPart CHR '':'' of [] \<Rightarrow> [] | h # _ \<Rightarrow> h)
                     in if trim actionName = [] then
                          invalid ''Keybind action cannot be empty'' Error
                        else
                          (case map_of (types schema) ''keybind'' of
                             None \<Rightarrow> valid
                           | Some keybindType \<Rightarrow>
                               (case td_actions keybindType of
                                  None \<Rightarrow> valid
                                | Some actions \<Rightarrow>
                                    if length actions > 0 \<and> actionName \<notin> set actions then
                                      invalid (''Unknown keybind action: '' @ [CHR 0x27]
                                                 @ actionName @ [CHR 0x27]) Warning
                                    else valid))))))"

definition validatePath :: "string \<Rightarrow> ValidationResult" where
  "validatePath value =
     (if trim value = [] then invalid ''Path cannot be empty'' Error
      else if startsWith value ''~'' \<or> startsWith value ''/'' \<or> startsWith value ''./''
              \<or> startsWith value ''?'' then valid
      else valid)"

definition validatePercentage :: "(rat \<Rightarrow> number) \<Rightarrow> string \<Rightarrow> ValidationResult" where
  "validatePercentage roundMV value =
     (let cleanValue = (if endsWith value ''%'' then butlast value else value);
          num = parseFloat roundMV cleanValue
      in if isNaN num then
           invalid (''Invalid percentage/number: '' @ [CHR 0x27] @ value @ [CHR 0x27]) Error
         else valid)"

definition durationRegex :: regex where
  \<comment> \<open>\<open>/^-?\d+(\.\d+)?(y|d|h|m|s|ms|us|\<mu>s|ns)?$/\<close>, the micro sign being U+00B5\<close>
  "durationRegex =
     Times (Opt (Chr CHR ''-''))
       (Times (Some1 (Atom isDigit))
          (Times (Opt (Times (Chr CHR ''.'') (Some1 (Atom isDigit))))
             (Opt (Plus (Lit ''y'') (Plus (Lit ''d'') (Plus (Lit ''h'') (Plus (Lit ''m'')
                (Plus (Lit ''s'') (Plus (Lit ''ms'') (Plus (Lit ''us'')
                (Plus (Lit [CHR 0xB5, CHR ''s'']) (Lit ''ns''))))))))))))"

definition validateDuration :: "string \<Rightarrow> ValidationResult" where
  "validateDuration value =
     (if matches durationRegex value then valid
      else invalid (''Invalid duration: '' @ [CHR 0x27] @ value @ [CHR 0x27]
                      @ ''. Expected number with optional unit (s, ms, etc.)'') Error)"

definition validateValue ::
  "(rat \<Rightarrow> number) \<Rightarrow> (number \<Rightarrow> string) \<Rightarrow> GhosttySchema \<Rightarrow> string \<Rightarrow> string \<Rightarrow> ValidationResult" where
  "validateValue roundMV numberToString schema key value =
     (case getProperty (options schema) key of
        Absent \<Rightarrow>
          invalid (''Unknown configuration key: '' @ [CHR 0x27] @ key @ [CHR 0x27]) Warning
      | Inherited \<Rightarrow>
          \<comment> \<open>truthy, and its \<open>type\<close> is \<open>undefined\<close>: the \<open>default\<close> branch\<close>
          if trim value = [] then valid else valid
      | Own option \<Rightarrow>
          if trim value = [] then valid
          else
            (case opt_type option of
               TBoolean \<Rightarrow> validateBoolean value
             | TNumber \<Rightarrow> validateNumber roundMV numberToString value (Some option)
             | TColor \<Rightarrow> validateColor value
             | TEnum \<Rightarrow> validateEnum value option
             | TKeybind \<Rightarrow> validateKeybind value schema
             | TPath \<Rightarrow> validatePath value
             | TPercentage \<Rightarrow> validatePercentage roundMV value
             | TDuration \<Rightarrow> validateDuration value
             | TString \<Rightarrow> valid
             | TTheme \<Rightarrow> valid))"


section \<open>The line parser\<close>

definition COMMENT_REGEX :: regex where
  \<comment> \<open>\<open>/^\s*#/\<close>\<close>
  "COMMENT_REGEX = Times (Star (Atom isWhiteSpace)) (Chr CHR ''#'')"

definition KEY_VALUE_REGEX :: regex where
  \<comment> \<open>\<open>/^(\s*)([a-zA-Z][a-zA-Z0-9_-]*)\s*=\s*(.*?)\s*$/\<close>\<close>
  "KEY_VALUE_REGEX =
     Times (Star (Atom isWhiteSpace))
       (Times (Times (Atom isAlpha) (Star (Atom isKeyChar)))
          (Times (Star (Atom isWhiteSpace))
             (Times (Chr CHR ''='')
                (Times (Star (Atom isWhiteSpace))
                   (Times (Star (Atom (\<lambda>c. \<not> isLineTerminator c)))
                      (Star (Atom isWhiteSpace)))))))"

definition testPrefix :: "regex \<Rightarrow> string \<Rightarrow> bool" where
  \<comment> \<open>\<open>test\<close> for an expression anchored by \<open>^\<close> only: some prefix of the string matches\<close>
  "testPrefix r s = matches (Times r (Star (Atom (\<lambda>c. True)))) s"

definition KEY_VALUE_exec :: "string \<Rightarrow> (string \<times> string \<times> string) option" where
  \<comment> \<open>\<open>KEY_VALUE_REGEX.exec(line)\<close>: the three groups (indent, key, value) of the match,
      found by one scan. The greedy groups take all they can; the lazy value group stops
      at the first point from which only white space follows.\<close>
  "KEY_VALUE_exec line =
     (let indent = takeWhile isWhiteSpace line
      in case dropWhile isWhiteSpace line of
           [] \<Rightarrow> None
         | c # r \<Rightarrow>
             if isAlpha c then
               (let key = c # takeWhile isKeyChar r
                in case dropWhile isWhiteSpace (dropWhile isKeyChar r) of
                     [] \<Rightarrow> None
                   | e # r' \<Rightarrow>
                       if e = CHR ''='' then
                         (let v = trimEnd (dropWhile isWhiteSpace r')
                          in if list_all (\<lambda>c. \<not> isLineTerminator c) v
                             then Some (indent, key, v) else None)
                       else None)
             else None)"

definition parseLine :: "string \<Rightarrow> nat \<Rightarrow> ParsedLine" where
  "parseLine line n =
     (if trim line = [] then
        \<lparr>pl_type = Empty, lineNumber = n, pl_key = None, pl_value = None,
         keyRange = None, valueRange = None, raw = line\<rparr>
      else if testPrefix COMMENT_REGEX line then
        \<lparr>pl_type = Comment, lineNumber = n, pl_key = None, pl_value = None,
         keyRange = None, valueRange = None, raw = line\<rparr>
      else
        (case KEY_VALUE_exec line of
           Some (indent, key, v) \<Rightarrow>
             (let keyStart = int (length indent);
                  keyEnd = keyStart + int (length key);
                  equalsIndex = indexOf line CHR ''='';
                  valueStart = equalsIndex + 1
                    + (int (length (substringFrom line (equalsIndex + 1)))
                       - int (length (trimStart (substringFrom line (equalsIndex + 1)))));
                  valueEnd = int (length (trimEnd line))
              in \<lparr>pl_type = KeyValue, lineNumber = n, pl_key = Some key,
                  pl_value = Some (trim v),
                  keyRange = Some \<lparr>range_start = keyStart, range_end = keyEnd\<rparr>,
                  valueRange = Some \<lparr>range_start = valueStart, range_end = valueEnd\<rparr>,
                  raw = line\<rparr>)
         | None \<Rightarrow>
             \<lparr>pl_type = Invalid, lineNumber = n, pl_key = None, pl_value = None,
              keyRange = None, valueRange = None, raw = line\<rparr>))"

definition parseDocument :: "string \<Rightarrow> ParsedLine list" where
  "parseDocument text =
     (let lines = split text CHR 0x0A
      in map (\<lambda>i. parseLine (lines ! i) i) [0..<length lines])"

definition isInKeyPosition :: "string \<Rightarrow> int \<Rightarrow> bool" where
  "isInKeyPosition line character =
     (let equalsIndex = indexOf line CHR ''=''
      in equalsIndex = - 1 \<or> character \<le> equalsIndex)"

definition isInValuePosition :: "string \<Rightarrow> int \<Rightarrow> bool" where
  "isInValuePosition line character =
     (let equalsIndex = indexOf line CHR ''=''
      in equalsIndex \<noteq> - 1 \<and> character > equalsIndex)"


section \<open>The completion provider\<close>

datatype CompletionItemKind =
  KProperty | KValue | KColor | KEnumMember | KFunction | KKeyword | KSnippet

datatype CompletionItemTag = Deprecated

text \<open>
  A completion item with the fields the provider sets. The documentation of a key item (a
  markdown text built from the option) and its command are left out: they depend on
  nothing but the key and its option, and nothing below depends on them.
\<close>

record CompletionItem =
  label :: string
  kind :: CompletionItemKind
  detail :: "string option"
  insertText :: "string option"
  sortText :: "string option"
  tags :: "CompletionItemTag list"

definition newItem :: "string \<Rightarrow> CompletionItemKind \<Rightarrow> CompletionItem" where
  \<comment> \<open>\<open>new vscode.CompletionItem(label, kind)\<close>\<close>
  "newItem l k =
     \<lparr>label = l, kind = k, detail = None, insertText = None, sortText = None, tags = []\<rparr>"

definition getTypeLabel :: "ConfigOption \<Rightarrow> string" where
  "getTypeLabel option =
     typeName (opt_type option)
     @ (if opt_repeatable option = Some True then '' (repeatable)'' else [])
     @ (case opt_platforms option of
          None \<Rightarrow> []
        | Some ps \<Rightarrow>
            if length ps > 0 then '' ['' @ join (map platformName ps) '', '' @ '']'' else [])"

definition keyItem :: "string \<Rightarrow> ConfigOption \<Rightarrow> CompletionItem" where
  \<comment> \<open>the body of the loop of \<open>getKeyCompletions\<close> for an entry that is kept\<close>
  "keyItem key option =
     (let item = (newItem key KProperty)
            \<lparr>detail := Some (getTypeLabel option), insertText := Some (key @ '' = '')\<rparr>
      in if opt_deprecated option = Some True
         then item\<lparr>tags := [Deprecated], sortText := Some (''z_'' @ key)\<rparr>
         else item\<lparr>sortText := Some key\<rparr>)"

definition getKeyCompletions :: "GhosttySchema \<Rightarrow> string \<Rightarrow> CompletionItem list" where
  "getKeyCompletions schema textBeforeCursor =
     (let pre = toLowerCase (trim textBeforeCursor)
      in map (\<lambda>(key, option). keyItem key option)
           (filter (\<lambda>(key, option). \<not> (pre \<noteq> [] \<and> \<not> includesStr (toLowerCase key) pre))
              (options schema)))"

definition getBooleanCompletions :: "string \<Rightarrow> CompletionItem list" where
  "getBooleanCompletions partial =
     map (\<lambda>v. (newItem v KValue)\<lparr>detail := Some ''Boolean''\<rparr>)
       (filter (\<lambda>v. partial = [] \<or> startsWith v partial) [''true'', ''false''])"

definition hexTemplates :: "(string \<times> string \<times> string) list" where
  \<comment> \<open>label, insert text and detail of the hex templates\<close>
  "hexTemplates = [(''#RRGGBB'', ''#'', ''Hex colour (e.g. #ff0000)'')]"

definition namedColors :: "string list" where
  "namedColors =
     [''black'', ''red'', ''green'', ''yellow'', ''blue'', ''magenta'', ''cyan'', ''white'',
      ''transparent'', ''cell-foreground'', ''cell-background'']"

definition getColorCompletions :: "string \<Rightarrow> CompletionItem list" where
  "getColorCompletions partial =
     map (\<lambda>(l, ins, d). (newItem l KColor)\<lparr>insertText := Some ins, detail := Some d\<rparr>)
       (filter (\<lambda>(l, ins, d). partial = [] \<or> includesStr (toLowerCase l) partial
                                \<or> startsWith ins partial) hexTemplates)
     @ map (\<lambda>color. (newItem color KColor)\<lparr>detail := Some ''Named colour''\<rparr>)
         (filter (\<lambda>color. partial = [] \<or> includesStr color partial) namedColors)"

definition getEnumCompletions :: "ConfigOption \<Rightarrow> string \<Rightarrow> CompletionItem list" where
  "getEnumCompletions option partial =
     (case opt_enum option of
        None \<Rightarrow> []
      | Some enum \<Rightarrow>
          map (\<lambda>v. (newItem v KEnumMember)\<lparr>detail := Some (typeName (opt_type option))\<rparr>)
            (filter (\<lambda>v. partial = [] \<or> includesStr (toLowerCase v) partial) enum))"

definition commonPatterns :: "(string \<times> string) list" where
  "commonPatterns =
     [(''ctrl+'', ''Control modifier''),
      (''shift+'', ''Shift modifier''),
      (''alt+'', ''Alt/Option modifier''),
      (''super+'', ''Super/Command modifier''),
      (''cmd+'', ''Command modifier (macOS)''),
      (''global:'', ''Global prefix (works when unfocused)''),
      (''performable:'', ''Performable prefix''),
      (''clear'', ''Clear all keybindings'')]"

definition commonKeybinds :: "string list" where
  "commonKeybinds =
     [''ctrl+c=copy_to_clipboard'',
      ''ctrl+v=paste_from_clipboard'',
      ''ctrl+shift+c=copy_to_clipboard'',
      ''ctrl+shift+v=paste_from_clipboard'',
      ''ctrl+t=new_tab'',
      ''ctrl+w=close_surface'',
      ''ctrl+shift+t=new_window'',
      ''ctrl+=increase_font_size'',
      ''ctrl+-=decrease_font_size'',
      ''ctrl+0=reset_font_size'']"

definition getKeybindCompletions :: "GhosttySchema \<Rightarrow> string \<Rightarrow> CompletionItem list" where
  "getKeybindCompletions schema partial =
     (if includesStr partial ''='' then
        (case map_of (types schema) ''keybind'' of
           None \<Rightarrow> []
         | Some keybindType \<Rightarrow>
             (case td_actions keybindType of
                None \<Rightarrow> []
              | Some actions \<Rightarrow>
                  (let actionPrefix =
                         (case elemAt (split partial CHR ''='') 1 of
                            None \<Rightarrow> [] | Some p \<Rightarrow> toLowerCase p)
                   in map (\<lambda>action. (newItem action KFunction)\<lparr>detail := Some ''Keybind action''\<rparr>)
                        (filter (\<lambda>action. actionPrefix = []
                                   \<or> includesStr (toLowerCase action) actionPrefix) actions))))
      else
        map (\<lambda>(l, d). (newItem l KKeyword)\<lparr>detail := Some d\<rparr>)
          (filter (\<lambda>(l, d). partial = [] \<or> includesStr (toLowerCase l) partial) commonPatterns)
        @ map (\<lambda>kb. (newItem kb KSnippet)\<lparr>detail := Some ''Common keybind''\<rparr>)
            (filter (\<lambda>kb. partial = [] \<or> includesStr (toLowerCase kb) partial) commonKeybinds))"

definition themes :: "string list" where
  "themes =
     [''auto'', ''light'', ''dark'',
      ''Catppuccin Mocha'', ''Catppuccin Frappe'', ''Catppuccin Latte'', ''Catppuccin Macchiato'',
      ''Dracula'', ''Gruvbox Dark'', ''Gruvbox Light'', ''Nord'', ''One Dark'', ''Solarized Dark'',
      ''Solarized Light'', ''Tokyo Night'', ''GitHub Dark'', ''GitHub Light'']"

definition themeCombination :: CompletionItem where
  \<comment> \<open>the light/dark combination item; the insert text is the source of the snippet\<close>
  "themeCombination =
     (newItem ''light:LIGHT_THEME,dark:DARK_THEME'' KSnippet)
       \<lparr>detail := Some ''Light/dark theme combination'',
        insertText := Some ''light:${1:theme},dark:${2:theme}''\<rparr>"

definition getThemeCompletions :: "string \<Rightarrow> CompletionItem list" where
  "getThemeCompletions partial =
     map (\<lambda>theme. (newItem theme KValue)\<lparr>detail := Some ''Theme''\<rparr>)
       (filter (\<lambda>theme. partial = [] \<or> includesStr (toLowerCase theme) partial) themes)
     @ (if partial = [] \<or> includesStr ''light:'' partial \<or> includesStr ''dark:'' partial
        then [themeCombination] else [])"

definition getExampleCompletions :: "ConfigOption \<Rightarrow> string \<Rightarrow> CompletionItem list" where
  "getExampleCompletions option partial =
     (case opt_examples option of
        None \<Rightarrow> []
      | Some examples \<Rightarrow>
          if length examples = 0 then []
          else map (\<lambda>ex. (newItem ex KValue)\<lparr>detail := Some ''Example value''\<rparr>)
                 (filter (\<lambda>ex. partial = [] \<or> includesStr (toLowerCase ex) partial) examples))"

definition partialValue :: "string \<Rightarrow> string" where
  \<comment> \<open>the text after the first \<open>=\<close> before the cursor, trimmed and in lower case\<close>
  "partialValue textBeforeCursor =
     (let equalsIndex = indexOf textBeforeCursor CHR ''=''
      in if equalsIndex \<noteq> - 1
         then toLowerCase (trim (substringFrom textBeforeCursor (equalsIndex + 1)))
         else [])"

definition getValueCompletions :: "GhosttySchema \<Rightarrow> string \<Rightarrow> string \<Rightarrow> CompletionItem list" where
  "getValueCompletions schema key textBeforeCursor =
     (case getProperty (options schema) key of
        Absent \<Rightarrow> []
      | Inherited \<Rightarrow>
          \<comment> \<open>the \<open>default\<close> branch, \<open>getExampleCompletions\<close>, finds no \<open>examples\<close>\<close>
          []
      | Own option \<Rightarrow>
          (let partial = partialValue textBeforeCursor
           in case opt_type option of
                TBoolean \<Rightarrow> getBooleanCompletions partial
              | TColor \<Rightarrow> getColorCompletions partial
              | TEnum \<Rightarrow> getEnumCompletions option partial
              | TKeybind \<Rightarrow> getKeybindCompletions schema partial
              | TTheme \<Rightarrow> getThemeCompletions partial
              | _ \<Rightarrow> getExampleCompletions option partial))"

definition provideCompletionItems :: "GhosttySchema \<Rightarrow> string \<Rightarrow> nat \<Rightarrow> int \<Rightarrow> CompletionItem list" where
  \<comment> \<open>the line under the cursor, its number, and the cursor's character offset\<close>
  "provideCompletionItems schema line n character =
     (let textBeforeCursor = substring line 0 character
      in if startsWith (trim textBeforeCursor) ''#'' then []
         else if isInKeyPosition line character then getKeyCompletions schema textBeforeCursor
         else if isInValuePosition line character then
           (case pl_key (parseLine line n) of
              None \<Rightarrow> []
            | Some key \<Rightarrow> if key = [] then [] else getValueCompletions schema key textBeforeCursor)
         else [])"

section \<open>Sample data\<close>

text \<open>A small schema with one option of each kind the properties below talk about.\<close>

definition sampleOption :: "ConfigValueType \<Rightarrow> ConfigOption" where
  "sampleOption t =
     \<lparr>opt_type = t, opt_description = [], opt_repeatable = None, opt_deprecated = None,
      opt_enum = None, opt_examples = None, opt_platforms = None, opt_minimum = None,
      opt_maximum = None, opt_pattern = None, opt_default = None\<rparr>"

definition sampleKeybindType :: TypeDefinition where
  "sampleKeybindType =
     \<lparr>td_description = [], td_patterns = None, td_validValues = None, td_namedValues = None,
      td_prefixes = None, td_modifiers = None,
      td_actions = Some [''copy_to_clipboard'', ''new_tab'']\<rparr>"

definition sampleSchema :: GhosttySchema where
  "sampleSchema =
     \<lparr>version = ''1.0'', description = [],
      options =
        [(''font-size'', (sampleOption TNumber)
            \<lparr>opt_minimum := Some (Finite 8), opt_maximum := Some (Finite 72)\<rparr>),
         (''background'', sampleOption TColor),
         (''keybind'', (sampleOption TKeybind)\<lparr>opt_repeatable := Some True\<rparr>),
         (''window-decoration'', sampleOption TEnum),
         (''cursor-style'', (sampleOption TEnum)
            \<lparr>opt_enum := Some [''block'', ''bar'', ''underline'']\<rparr>),
         (''bold-is-bright'', (sampleOption TBoolean)\<lparr>opt_deprecated := Some True\<rparr>),
         (''theme'', sampleOption TTheme),
         (''font-family'', (sampleOption TString)
            \<lparr>opt_examples := Some [''JetBrains Mono'', ''Fira Code'']\<rparr>)],
      types = [(''keybind'', sampleKeybindType)],
      repeatableKeys = [''keybind'']\<rparr>"

definition sampleNumberToString :: "number \<Rightarrow> string" where
  \<comment> \<open>a printer for the numbers of the examples; any other is printed as \<open>?\<close>\<close>
  "sampleNumberToString n =
     (if n = Finite 4 then ''4'' else if n = Finite 8 then ''8''
      else if n = Finite 72 then ''72'' else if n = Finite 96 then ''96'' else ''?'')"

section \<open>The words of the specification\<close>

text \<open>
  Predicates that say, independently of the code, what the specification's sentences talk
  about: the index of the first occurrence of a character, the first character after an
  index that is not white space, the length a line has once trailing white space is
  removed, a string of exactly \<open>n\<close> hexadecimal digits, equality up to letter case.
\<close>

definition isFirstIndexOf :: "string \<Rightarrow> char \<Rightarrow> nat \<Rightarrow> bool" where
  "isFirstIndexOf s c e \<longleftrightarrow> e < length s \<and> s ! e = c \<and> (\<forall>j \<in> {..<e}. s ! j \<noteq> c)"

definition isFirstNonWhiteSpaceAfter :: "string \<Rightarrow> nat \<Rightarrow> nat \<Rightarrow> bool" where
  "isFirstNonWhiteSpaceAfter s e i \<longleftrightarrow>
     e < i \<and> i < length s \<and> \<not> isWhiteSpace (s ! i) \<and> (\<forall>j \<in> {e<..<i}. isWhiteSpace (s ! j))"

definition isTrimmedLength :: "string \<Rightarrow> nat \<Rightarrow> bool" where
  "isTrimmedLength s k \<longleftrightarrow>
     k \<le> length s \<and> (\<forall>j \<in> {k..<length s}. isWhiteSpace (s ! j))
     \<and> (k = 0 \<or> \<not> isWhiteSpace (s ! (k - 1)))"

definition isHexDigits :: "nat \<Rightarrow> string \<Rightarrow> bool" where
  "isHexDigits n s \<longleftrightarrow> length s = n \<and> list_all isHexDigit s"

definition equalsIgnoreCase :: "string \<Rightarrow> string \<Rightarrow> bool" where
  "equalsIgnoreCase a b \<longleftrightarrow> toLowerCase a = toLowerCase b"

definition colorAccepted :: "string \<Rightarrow> bool" where
  \<comment> \<open>six digits with or without \<open>#\<close>; three or eight digits after \<open>#\<close>; a named colour
      in any letter case\<close>
  "colorAccepted v \<longleftrightarrow>
     isHexDigits 6 v
     \<or> (case v of [] \<Rightarrow> False
         | c # r \<Rightarrow> c = CHR ''#'' \<and> (isHexDigits 6 r \<or> isHexDigits 3 r \<or> isHexDigits 8 r))
     \<or> (\<exists>n \<in> set NAMED_COLORS. equalsIgnoreCase v n)"

definition containsIgnoreCase :: "string \<Rightarrow> string \<Rightarrow> bool" where
  \<comment> \<open>case-insensitive substring containment of \<open>text\<close> in \<open>candidate\<close>\<close>
  "containsIgnoreCase candidate text \<longleftrightarrow> sublist (toLowerCase text) (toLowerCase candidate)"

definition keyMatches :: "string \<Rightarrow> string \<Rightarrow> bool" where
  \<comment> \<open>the key's lower-case form contains the lower-cased, trimmed partial text\<close>
  "keyMatches partialText key \<longleftrightarrow> containsIgnoreCase key (trim partialText)"

definition isDeprecated :: "ConfigOption \<Rightarrow> bool" where
  "isDeprecated option \<longleftrightarrow> opt_deprecated option = Some True"

definition completeKey_spec :: "GhosttySchema \<Rightarrow> string \<Rightarrow> string list" where
  \<comment> \<open>the ordering the specification describes: the matching keys that are not
      deprecated in lexicographic order, then the deprecated ones in lexicographic order\<close>
  "completeKey_spec schema partialText =
     (let matching = filter (\<lambda>(key, option). keyMatches partialText key) (options schema)
      in sort (map fst (filter (\<lambda>(key, option). \<not> isDeprecated option) matching))
         @ sort (map fst (filter (\<lambda>(key, option). isDeprecated option) matching)))"

definition sortKey :: "CompletionItem \<Rightarrow> string" where
  \<comment> \<open>what the editor sorts an item by: its \<open>sortText\<close>, or its label when there is none\<close>
  "sortKey item = (case sortText item of None \<Rightarrow> label item | Some s \<Rightarrow> s)"

definition betweenEquals :: "string \<Rightarrow> string" where
  \<comment> \<open>the text between the first and the second \<open>=\<close> (or the end)\<close>
  "betweenEquals s =
     takeWhile (\<lambda>c. c \<noteq> CHR ''='') (drop 1 (dropWhile (\<lambda>c. c \<noteq> CHR ''='') s))"

definition keybindActions :: "GhosttySchema \<Rightarrow> string list" where
  \<comment> \<open>the action vocabulary of the schema, empty when none is declared\<close>
  "keybindActions schema =
     (case map_of (types schema) ''keybind'' of
        None \<Rightarrow> []
      | Some keybindType \<Rightarrow> (case td_actions keybindType of None \<Rightarrow> [] | Some actions \<Rightarrow> actions))"

definition valueCandidates :: "GhosttySchema \<Rightarrow> ConfigOption \<Rightarrow> string list" where
  \<comment> \<open>the candidates offered for an option before any text is typed\<close>
  "valueCandidates schema option =
     (case opt_type option of
        TBoolean \<Rightarrow> [''true'', ''false'']
      | TColor \<Rightarrow> map fst hexTemplates @ namedColors
      | TEnum \<Rightarrow> (case opt_enum option of None \<Rightarrow> [] | Some enum \<Rightarrow> enum)
      | TKeybind \<Rightarrow> map fst commonPatterns @ commonKeybinds
      | TTheme \<Rightarrow> themes @ [label themeCombination]
      | _ \<Rightarrow> (case opt_examples option of None \<Rightarrow> [] | Some examples \<Rightarrow> examples))"

definition lessEq :: "number \<Rightarrow> number \<Rightarrow> bool" where
  \<comment> \<open>\<open>a <= b\<close>: false when an operand is NaN, otherwise the negation of \<open>b < a\<close>\<close>
  "lessEq a b \<longleftrightarrow> a \<noteq> NaN \<and> b \<noteq> NaN \<and> \<not> lessThan b a"

definition exponentPart :: regex where
  \<comment> \<open>\<open>[eE][+-]?\d+\<close>\<close>
  "exponentPart =
     Times (Plus (Chr CHR ''e'') (Chr CHR ''E''))
       (Times (Opt (Plus (Chr CHR ''+'') (Chr CHR ''-''))) (Some1 (Atom isDigit)))"

definition unsignedLiteral :: regex where
  \<comment> \<open>\<open>Infinity|\d+(\.\d*)?([eE][+-]?\d+)?|\.\d+([eE][+-]?\d+)?\<close>\<close>
  "unsignedLiteral =
     Plus (Lit ''Infinity'')
       (Plus (Times (Some1 (Atom isDigit))
                (Times (Opt (Times (Chr CHR ''.'') (Star (Atom isDigit)))) (Opt exponentPart)))
             (Times (Chr CHR ''.'') (Times (Some1 (Atom isDigit)) (Opt exponentPart))))"

definition floatLiteral :: regex where
  \<comment> \<open>a floating-point literal: an optional sign and an unsigned literal\<close>
  "floatLiteral = Times (Opt (Plus (Chr CHR ''+'') (Chr CHR ''-''))) unsignedLiteral"

definition isFloatLiteral :: "string \<Rightarrow> bool" where
  "isFloatLiteral s \<longleftrightarrow> matches floatLiteral s"

definition hasFloatLiteralPrefix :: "string \<Rightarrow> bool" where
  \<comment> \<open>some prefix of the text, leading white space skipped, is a floating-point literal\<close>
  "hasFloatLiteralPrefix s \<longleftrightarrow>
     (\<exists>n \<in> {..length (trimStart s)}. isFloatLiteral (take n (trimStart s)))"

text \<open>
  Two auxiliary notions for \<open>parseFloat\<close>: the text without its sign, and a text that
  starts like an unsigned literal (with \<open>Infinity\<close>, a digit, or a point and a digit).
\<close>

definition unsign :: "string \<Rightarrow> string" where
  "unsign t = (case t of [] \<Rightarrow> [] | c # r \<Rightarrow> if c = CHR ''+'' \<or> c = CHR ''-'' then r else t)"

definition numericStart :: "string \<Rightarrow> bool" where
  "numericStart u \<longleftrightarrow>
     prefix ''Infinity'' u
     \<or> (case u of [] \<Rightarrow> False
         | c # r \<Rightarrow> isDigit c
             \<or> (c = CHR ''.'' \<and> (case r of [] \<Rightarrow> False | d # _ \<Rightarrow> isDigit d)))"


section \<open>Auxiliary facts about the string functions\<close>

lemma trim_empty_iff: "trim s = [] \<longleftrightarrow> (\<forall>c \<in> set s. isWhiteSpace c)"
proof -
  have "trim s = [] \<longleftrightarrow> dropWhile isWhiteSpace (rev (dropWhile isWhiteSpace s)) = []"
    by (simp add: trim_def trimEnd_def trimStart_def)
  also have "\<dots> \<longleftrightarrow> (\<forall>c \<in> set (dropWhile isWhiteSpace s). isWhiteSpace c)"
    by (simp add: dropWhile_eq_Nil_conv)
  also have "\<dots> \<longleftrightarrow> (\<forall>c \<in> set s. isWhiteSpace c)"
  proof
    assume a: "\<forall>c \<in> set (dropWhile isWhiteSpace s). isWhiteSpace c"
    have "dropWhile isWhiteSpace s = []"
    proof (rule ccontr)
      assume "dropWhile isWhiteSpace s \<noteq> []"
      then have "\<not> isWhiteSpace (hd (dropWhile isWhiteSpace s))"
        and "hd (dropWhile isWhiteSpace s) \<in> set (dropWhile isWhiteSpace s)"
        by (simp_all add: hd_dropWhile)
      with a show False by blast
    qed
    then show "\<forall>c \<in> set s. isWhiteSpace c" by (simp add: dropWhile_eq_Nil_conv)
  next
    assume "\<forall>c \<in> set s. isWhiteSpace c"
    then show "\<forall>c \<in> set (dropWhile isWhiteSpace s). isWhiteSpace c"
      using set_dropWhileD by fastforce
  qed
  finally show ?thesis .
qed

lemma getProperty_own: "map_of obj key = Some v \<Longrightarrow> getProperty obj key = Own v"
  by (simp add: getProperty_def)

lemma takeWhile_all: "list_all P xs \<Longrightarrow> \<not> P y \<Longrightarrow> takeWhile P (xs @ y # ys) = xs"
  by (induction xs) auto

lemma dropWhile_all: "list_all P xs \<Longrightarrow> dropWhile P (xs @ ys) = dropWhile P ys"
  by (induction xs) auto

lemma indexOf_absent: "indexOf s c = - 1 \<longleftrightarrow> c \<notin> set s"
  by (simp add: indexOf_def)

lemma indexOf_append: "c \<notin> set t \<Longrightarrow> indexOf (t @ c # r) c = int (length t)"
proof -
  assume a: "c \<notin> set t"
  then have "takeWhile (\<lambda>x. x \<noteq> c) (t @ c # r) = t"
    by (induction t) auto
  then show ?thesis by (simp add: indexOf_def)
qed

lemma substring_prefix: "substring (t @ r) 0 (int (length t)) = t"
  by (simp add: substring_def clampIndex_def Let_def)

lemma substringFrom_suffix: "substringFrom (t @ c # r) (int (length t) + 1) = r"
  by (simp add: substringFrom_def clampIndex_def nat_add_distrib)

lemma split_nonempty: "split s c \<noteq> []"
  by (induction s) (auto split: list.splits)

lemma split_head: "(case split s c of [] \<Rightarrow> [] | h # _ \<Rightarrow> h) = takeWhile (\<lambda>x. x \<noteq> c) s"
  by (induction s) (auto split: list.splits)

lemma isFirstIndexOf_iff:
  "isFirstIndexOf s c e \<longleftrightarrow> c \<in> set s \<and> e = length (takeWhile (\<lambda>x. x \<noteq> c) s)"
proof
  assume a: "isFirstIndexOf s c e"
  then have e: "e < length s" "s ! e = c" "\<And>j. j < e \<Longrightarrow> s ! j \<noteq> c"
    by (auto simp: isFirstIndexOf_def)
  have "takeWhile (\<lambda>x. x \<noteq> c) s = take e s"
    by (rule takeWhile_eq_take_P_nth) (use e in auto)
  with e show "c \<in> set s \<and> e = length (takeWhile (\<lambda>x. x \<noteq> c) s)"
    by (auto simp: in_set_conv_nth)
next
  assume a: "c \<in> set s \<and> e = length (takeWhile (\<lambda>x. x \<noteq> c) s)"
  have "c \<in> set s \<Longrightarrow> length (takeWhile (\<lambda>x. x \<noteq> c) s) < length s"
    by (induction s) auto
  with a have lt: "e < length s" by simp
  from a lt have "s ! e = c"
    using nth_length_takeWhile[of "\<lambda>x. x \<noteq> c" s] by auto
  moreover have "s ! j \<noteq> c" if "j < e" for j
    using that a takeWhile_nth[of j "\<lambda>x. x \<noteq> c" s] nth_mem[of j "takeWhile (\<lambda>x. x \<noteq> c) s"] set_takeWhileD[of "s ! j" "\<lambda>x. x \<noteq> c" s]
    by auto
  ultimately show "isFirstIndexOf s c e" using lt by (auto simp: isFirstIndexOf_def)
qed

lemma indexOf_first: "c \<in> set s \<Longrightarrow> isFirstIndexOf s c e \<longleftrightarrow> indexOf s c = int e"
  by (auto simp: isFirstIndexOf_iff indexOf_def)


lemma lowerChar_idem: "lowerChar (lowerChar c) = lowerChar c"
  by (auto simp: lowerChar_def less_eq_char_def)

lemma toLowerCase_idem: "toLowerCase (toLowerCase s) = toLowerCase s"
  by (simp add: toLowerCase_def lowerChar_idem)

section \<open>Auxiliary facts about the regular expressions\<close>

lemma matches_Zero [simp]: "\<not> matches Zero s"
  by (induction s) auto

lemma matches_One [simp]: "matches One s \<longleftrightarrow> s = []"
  by (cases s) auto

lemma matches_Atom [simp]: "matches (Atom p) s \<longleftrightarrow> (\<exists>c. s = [c] \<and> p c)"
  by (cases s) auto

lemma matches_Plus [simp]: "matches (Plus r t) s \<longleftrightarrow> matches r s \<or> matches t s"
  by (induction s arbitrary: r t) auto

lemma matches_Times:
  "matches (Times r t) s \<longleftrightarrow> (\<exists>u v. s = u @ v \<and> matches r u \<and> matches t v)"
proof (induction s arbitrary: r t)
  case Nil
  then show ?case by simp
next
  case (Cons c cs)
  show ?case
  proof
    assume "matches (Times r t) (c # cs)"
    then consider (left) "matches (Times (deriv c r) t) cs"
      | (right) "nullable r" "matches (deriv c t) cs"
      by (auto split: if_splits)
    then show "\<exists>u v. c # cs = u @ v \<and> matches r u \<and> matches t v"
    proof cases
      case left
      then obtain u v where "cs = u @ v" "matches (deriv c r) u" "matches t v"
        using Cons.IH by blast
      then have "c # cs = (c # u) @ v \<and> matches r (c # u) \<and> matches t v"
        by simp
      then show ?thesis by blast
    next
      case right
      then have "c # cs = [] @ (c # cs) \<and> matches r [] \<and> matches t (c # cs)"
        by simp
      then show ?thesis by blast
    qed
  next
    assume "\<exists>u v. c # cs = u @ v \<and> matches r u \<and> matches t v"
    then obtain u v where uv: "c # cs = u @ v" "matches r u" "matches t v"
      by blast
    show "matches (Times r t) (c # cs)"
    proof (cases u)
      case Nil
      with uv show ?thesis by auto
    next
      case (Cons d u')
      with uv have "cs = u' @ v" "matches (deriv c r) u'"
        by auto
      with uv(3) have "matches (Times (deriv c r) t) cs"
        using Cons.IH by blast
      then show ?thesis by auto
    qed
  qed
qed

lemma matches_Rep_Atom: "matches (Rep n (Atom p)) s \<longleftrightarrow> length s = n \<and> list_all p s"
proof (induction n arbitrary: s)
  case 0
  then show ?case by auto
next
  case (Suc n)
  show ?case by (cases s) (auto simp: matches_Times Suc)
qed

lemma matches_Chr [simp]: "matches (Chr c) s \<longleftrightarrow> s = [c]"
  by (auto simp: Chr_def)

lemma matches_Star_Atom: "matches (Star (Atom p)) s \<longleftrightarrow> list_all p s"
  by (induction s) (auto simp: matches_Times)

lemma matches_Chr_Times: "matches (Times (Chr c) r) s \<longleftrightarrow> (\<exists>t. s = c # t \<and> matches r t)"
  by (auto simp: matches_Times simp del: matches.simps)

lemma HEX_COLOR_REGEX_matches:
  "matches HEX_COLOR_REGEX v \<longleftrightarrow>
     (case v of [] \<Rightarrow> False
      | c # r \<Rightarrow> c = CHR ''#'' \<and> (isHexDigits 3 r \<or> isHexDigits 6 r \<or> isHexDigits 8 r))"
  by (cases v)
    (auto simp: HEX_COLOR_REGEX_def matches_Chr_Times matches_Rep_Atom isHexDigits_def
          simp del: matches.simps)

lemma HEX_COLOR_NO_HASH_REGEX_matches: "matches HEX_COLOR_NO_HASH_REGEX v \<longleftrightarrow> isHexDigits 6 v"
  by (simp add: HEX_COLOR_NO_HASH_REGEX_def matches_Rep_Atom isHexDigits_def del: matches.simps)


section \<open>Keybind values\<close>

text \<open>
  What \<open>validateKeybind\<close> does on a value split at its first \<open>=\<close>: the trigger is the
  text before it, the action name the text after it up to the first \<open>:\<close>.
\<close>

lemma validateKeybind_parts:
  assumes "CHR ''='' \<notin> set trigger"
  shows "validateKeybind (trigger @ CHR ''='' # actionPart) schema =
     (if trim trigger = [] then invalid ''Keybind trigger cannot be empty'' Error
      else if trim (takeWhile (\<lambda>x. x \<noteq> CHR '':'') actionPart) = [] then
        invalid ''Keybind action cannot be empty'' Error
      else (case map_of (types schema) ''keybind'' of
              None \<Rightarrow> valid
            | Some keybindType \<Rightarrow>
               (case td_actions keybindType of
                  None \<Rightarrow> valid
                | Some actions \<Rightarrow>
                    if length actions > 0
                       \<and> takeWhile (\<lambda>x. x \<noteq> CHR '':'') actionPart \<notin> set actions then
                      invalid (''Unknown keybind action: '' @ [CHR 0x27]
                                 @ takeWhile (\<lambda>x. x \<noteq> CHR '':'') actionPart @ [CHR 0x27]) Warning
                    else valid)))"
proof -
  have ne: "trigger @ CHR ''='' # actionPart \<noteq> ''clear''"
  proof
    assume "trigger @ CHR ''='' # actionPart = ''clear''"
    then have "CHR ''='' \<in> set ''clear''" by (metis in_set_conv_decomp)
    then show False by simp
  qed
  have idx: "indexOf (trigger @ CHR ''='' # actionPart) CHR ''='' = int (length trigger)"
    using assms by (rule indexOf_append)
  show ?thesis
    unfolding validateKeybind_def
    by (simp only: ne idx if_False Let_def substring_prefix substringFrom_suffix split_head)
       simp
qed

text \<open>
  C1, as stated: with a non-empty action vocabulary, a value \<open>trigger=action\<close> whose
  trigger and action name are not empty and whose action name is not in the vocabulary is
  reported with \<open>isValid = true\<close> and severity warning. The code reports it with
  \<open>isValid = false\<close>: for \<open>ctrl+x=teleport\<close> and the vocabulary
  \<open>copy_to_clipboard, new_tab\<close> the result is not valid.
\<close>

theorem unknown_action_counterexample:
  "map_of (types sampleSchema) ''keybind'' = Some sampleKeybindType
   \<and> td_actions sampleKeybindType = Some [''copy_to_clipboard'', ''new_tab'']
   \<and> ''teleport'' \<notin> set [''copy_to_clipboard'', ''new_tab'']
   \<and> isValid (validateValue Finite sampleNumberToString sampleSchema ''keybind''
                 ''ctrl+x=teleport'') = False"
  by code_simp

text \<open>
  C1, amended: under the same conditions the result has \<open>isValid = false\<close>, severity
  warning and the message \<open>Unknown keybind action: '<action name>'\<close>. The value is
  \<open>trigger = action part\<close>, split at its first \<open>=\<close>; the action name is the action part
  up to its first \<open>:\<close>.
\<close>

theorem unknown_action_is_warning:
  assumes "map_of (options schema) key = Some option" and "opt_type option = TKeybind"
    and "map_of (types schema) ''keybind'' = Some keybindType"
    and "td_actions keybindType = Some actions" and "actions \<noteq> []"
    and "v = trigger @ ''='' @ actionPart" and "CHR ''='' \<notin> set trigger"
    and "trim trigger \<noteq> []"
    and "actionName = takeWhile (\<lambda>c. c \<noteq> CHR '':'') actionPart" and "trim actionName \<noteq> []"
    and "actionName \<notin> set actions"
  shows "validateValue roundMV numberToString schema key v =
           \<lparr>isValid = False,
            message = Some (''Unknown keybind action: '' @ [CHR 0x27] @ actionName @ [CHR 0x27]),
            severity = Some Warning\<rparr>"
proof -
  have "\<not> (\<forall>c \<in> set trigger. isWhiteSpace c)"
    using assms(8) by (simp add: trim_empty_iff)
  then have "trim v \<noteq> []"
    using assms(6) by (auto simp: trim_empty_iff)
  then have "validateValue roundMV numberToString schema key v = validateKeybind v schema"
    using assms(1,2) by (simp add: validateValue_def getProperty_own)
  also have "\<dots> = invalid (''Unknown keybind action: '' @ [CHR 0x27] @ actionName @ [CHR 0x27])
                      Warning"
    using assms(3-5,8-11) unfolding assms(6)
    by (simp add: validateKeybind_parts[OF assms(7)])
  finally show ?thesis by (simp add: invalid_def)
qed

theorem unknown_action_is_warning_witness:
  "validateValue Finite sampleNumberToString sampleSchema ''keybind'' ''ctrl+x=teleport:1'' =
     \<lparr>isValid = False,
      message = Some (''Unknown keybind action: '' @ [CHR 0x27] @ ''teleport'' @ [CHR 0x27]),
      severity = Some Warning\<rparr>"
proof -
  have h1: "map_of (options sampleSchema) ''keybind''
              = Some ((sampleOption TKeybind)\<lparr>opt_repeatable := Some True\<rparr>)"
    by code_simp
  have h2: "opt_type ((sampleOption TKeybind)\<lparr>opt_repeatable := Some True\<rparr>) = TKeybind"
    by code_simp
  have h3: "map_of (types sampleSchema) ''keybind'' = Some sampleKeybindType"
    by code_simp
  have h4: "td_actions sampleKeybindType = Some [''copy_to_clipboard'', ''new_tab'']"
    by code_simp
  have h5: "[''copy_to_clipboard'', ''new_tab''] \<noteq> ([] :: string list)"
    by simp
  have h6: "''ctrl+x=teleport:1'' = ''ctrl+x'' @ ''='' @ ''teleport:1''"
    by simp
  have h7: "CHR ''='' \<notin> set ''ctrl+x''"
    by simp
  have h8: "trim ''ctrl+x'' \<noteq> []"
    by code_simp
  have h9: "''teleport'' = takeWhile (\<lambda>c. c \<noteq> CHR '':'') ''teleport:1''"
    by simp
  have h10: "trim ''teleport'' \<noteq> []"
    by code_simp
  have h11: "''teleport'' \<notin> set [''copy_to_clipboard'', ''new_tab'']"
    by simp
  show ?thesis
    by (rule unknown_action_is_warning [OF h1 h2 h3 h4 h5 h6 h7 h8 h9 h10 h11])
qed

text \<open>
  C7: the literal \<open>clear\<close> is valid; any other value without \<open>=\<close> is an error; a value
  whose text before the first \<open>=\<close> trims to nothing is an error (empty trigger); a value
  whose action name, the text after the first \<open>=\<close> up to the first \<open>:\<close>, trims to
  nothing is an error (empty action, or empty trigger when the trigger is empty too).
\<close>

theorem keybind_structure:
  "validateKeybind ''clear'' schema = valid
   \<and> (CHR ''='' \<notin> set v \<and> v \<noteq> ''clear'' \<longrightarrow>
        validateKeybind v schema =
          invalid ''Invalid keybind format. Expected: [prefix:]trigger=action[:param]'' Error)
   \<and> (CHR ''='' \<notin> set trigger \<and> trim trigger = [] \<longrightarrow>
        validateKeybind (trigger @ ''='' @ actionPart) schema =
          invalid ''Keybind trigger cannot be empty'' Error)
   \<and> (CHR ''='' \<notin> set trigger \<and> trim (takeWhile (\<lambda>c. c \<noteq> CHR '':'') actionPart) = [] \<longrightarrow>
        isValid (validateKeybind (trigger @ ''='' @ actionPart) schema) = False
        \<and> severity (validateKeybind (trigger @ ''='' @ actionPart) schema) = Some Error
        \<and> (trim trigger \<noteq> [] \<longrightarrow>
             message (validateKeybind (trigger @ ''='' @ actionPart) schema) =
               Some ''Keybind action cannot be empty''))"
proof (intro conjI impI)
  show "validateKeybind ''clear'' schema = valid"
    by (simp add: validateKeybind_def)
next
  assume "CHR ''='' \<notin> set v \<and> v \<noteq> ''clear''"
  then show "validateKeybind v schema =
      invalid ''Invalid keybind format. Expected: [prefix:]trigger=action[:param]'' Error"
    by (simp add: validateKeybind_def indexOf_def)
next
  assume "CHR ''='' \<notin> set trigger \<and> trim trigger = []"
  then show "validateKeybind (trigger @ ''='' @ actionPart) schema =
      invalid ''Keybind trigger cannot be empty'' Error"
    by (simp add: validateKeybind_parts)
next
  assume a: "CHR ''='' \<notin> set trigger \<and> trim (takeWhile (\<lambda>c. c \<noteq> CHR '':'') actionPart) = []"
  then show "isValid (validateKeybind (trigger @ ''='' @ actionPart) schema) = False"
    by (simp add: validateKeybind_parts invalid_def)
  from a show "severity (validateKeybind (trigger @ ''='' @ actionPart) schema) = Some Error"
    by (simp add: validateKeybind_parts invalid_def)
  assume "trim trigger \<noteq> []"
  with a show "message (validateKeybind (trigger @ ''='' @ actionPart) schema) =
      Some ''Keybind action cannot be empty''"
    by (simp add: validateKeybind_parts invalid_def)
qed

theorem keybind_structure_witness:
  "validateKeybind ''clear'' sampleSchema = valid
   \<and> validateKeybind ''ctrl+c'' sampleSchema =
       invalid ''Invalid keybind format. Expected: [prefix:]trigger=action[:param]'' Error
   \<and> validateKeybind ''=copy'' sampleSchema = invalid ''Keybind trigger cannot be empty'' Error
   \<and> validateKeybind ''ctrl+c='' sampleSchema = invalid ''Keybind action cannot be empty'' Error"
proof -
  have h1: "CHR ''='' \<notin> set ''ctrl+c'' \<and> ''ctrl+c'' \<noteq> ''clear''"
    by simp
  have h2: "CHR ''='' \<notin> set '''' \<and> trim '''' = []"
    by code_simp
  have h3: "CHR ''='' \<notin> set ''ctrl+c'' \<and> trim (takeWhile (\<lambda>c. c \<noteq> CHR '':'') '''') = []"
    by code_simp
  have h4: "trim ''ctrl+c'' \<noteq> []"
    by code_simp
  have r: "isValid x = False \<and> severity x = Some Error \<and> message x = Some m
           \<Longrightarrow> x = invalid m Error" for x m
    by (cases x) (simp add: invalid_def)
  have a: "validateKeybind ''ctrl+c'' sampleSchema =
       invalid ''Invalid keybind format. Expected: [prefix:]trigger=action[:param]'' Error"
    using keybind_structure [of sampleSchema "''ctrl+c''" "[]" "[]"] h1 by blast
  have b: "validateKeybind ''=copy'' sampleSchema = invalid ''Keybind trigger cannot be empty'' Error"
    using keybind_structure [of sampleSchema "[]" "[]" "''copy''"] h2 by simp
  have c: "validateKeybind ''ctrl+c='' sampleSchema = invalid ''Keybind action cannot be empty'' Error"
    using keybind_structure [of sampleSchema "[]" "''ctrl+c''" "[]"] h3 h4 by (intro r) simp
  show ?thesis
    using keybind_structure [of sampleSchema "[]" "[]" "[]"] a b c by blast
qed

section \<open>Entry rules of \<open>validateValue\<close>\<close>

text \<open>
  C2, as stated: for every key, in the schema or not, an empty or blank value is valid.
  The code looks the key up first: for a key that the lookup does not find, such as
  \<open>font-sise\<close>, the result is the unknown-key warning with \<open>isValid = false\<close>, whatever
  the value.
\<close>

theorem empty_value_unknown_key_counterexample:
  "map_of (options sampleSchema) ''font-sise'' = None
   \<and> trim '''' = []
   \<and> isValid (validateValue Finite sampleNumberToString sampleSchema ''font-sise'' '''') = False"
  by code_simp

text \<open>
  C2, amended: for every key that is in \<open>schema.options\<close> and every value that is empty
  or blank after trimming, the result is \<open>{isValid: true}\<close>, whatever the type of the
  option.
\<close>

theorem empty_value_is_valid:
  assumes "map_of (options schema) key = Some option" and "trim v = []"
  shows "validateValue roundMV numberToString schema key v = valid"
  using assms by (simp add: validateValue_def getProperty_own)

theorem empty_value_is_valid_witness:
  "validateValue Finite sampleNumberToString sampleSchema ''font-size''
     [CHR '' '', CHR 0x09, CHR '' ''] = valid"
proof -
  have h1: "map_of (options sampleSchema) ''font-size''
              = Some ((sampleOption TNumber)
                       \<lparr>opt_minimum := Some (Finite 8), opt_maximum := Some (Finite 72)\<rparr>)"
    by code_simp
  have h2: "trim [CHR '' '', CHR 0x09, CHR '' ''] = []"
    by code_simp
  show ?thesis
    by (rule empty_value_is_valid [OF h1 h2])
qed

text \<open>
  A key that is not in the schema but names a member of \<open>Object.prototype\<close> is not
  reported as unknown: the lookup finds the inherited member, and every value is valid.
\<close>

lemma inherited_key_is_valid:
  assumes "map_of (options schema) key = None" and "key \<in> set objectPrototypeKeys"
  shows "validateValue roundMV numberToString schema key v = valid"
  using assms by (simp add: validateValue_def getProperty_def)

lemma inherited_key_example:
  "validateValue Finite sampleNumberToString sampleSchema ''constructor'' ''anything'' = valid
   \<and> validateValue Finite sampleNumberToString sampleSchema ''toString'' [] = valid"
  by code_simp

section \<open>Enum options without a list\<close>

text \<open>
  C10: for an option of type \<open>enum\<close> whose \<open>enum\<close> list is absent, \<open>validateValue\<close>
  returns \<open>{isValid: true}\<close> for every value: the membership check is skipped.
\<close>

theorem enum_without_list_is_valid:
  assumes "map_of (options schema) key = Some option"
    and "opt_type option = TEnum" and "opt_enum option = None"
  shows "validateValue roundMV numberToString schema key v = valid"
  using assms by (simp add: validateValue_def validateEnum_def getProperty_own)

theorem enum_without_list_is_valid_witness:
  "validateValue Finite sampleNumberToString sampleSchema ''window-decoration'' ''anything'' = valid"
proof -
  have h1: "map_of (options sampleSchema) ''window-decoration'' = Some (sampleOption TEnum)"
    by code_simp
  have h2: "opt_type (sampleOption TEnum) = TEnum"
    by code_simp
  have h3: "opt_enum (sampleOption TEnum) = None"
    by code_simp
  show ?thesis
    by (rule enum_without_list_is_valid [OF h1 h2 h3])
qed

section \<open>The hexadecimal and the named colours\<close>

lemma NAMED_COLORS_lower: "n \<in> set NAMED_COLORS \<Longrightarrow> toLowerCase n = n"
proof -
  have "list_all (\<lambda>n. toLowerCase n = n) NAMED_COLORS"
    by code_simp
  then show "n \<in> set NAMED_COLORS \<Longrightarrow> toLowerCase n = n"
    by (simp add: list_all_iff)
qed

lemma named_color_iff:
  "toLowerCase v \<in> set NAMED_COLORS \<longleftrightarrow> (\<exists>n \<in> set NAMED_COLORS. equalsIgnoreCase v n)"
  using NAMED_COLORS_lower by (auto simp: equalsIgnoreCase_def)

section \<open>Colour values\<close>

text \<open>
  C6: a value is valid under colour validation if and only if it is six hexadecimal digits
  with or without a leading \<open>#\<close>, three or eight hexadecimal digits after a leading
  \<open>#\<close>, or one of the named colours in any letter case; any other value is reported
  with \<open>isValid = false\<close> and severity error.
\<close>

theorem color_validation:
  "(isValid (validateColor v) \<longleftrightarrow> colorAccepted v)
   \<and> (\<not> colorAccepted v \<longrightarrow>
        isValid (validateColor v) = False \<and> severity (validateColor v) = Some Error)"
proof -
  have "validateColor v = valid" if "colorAccepted v"
    using that unfolding validateColor_def colorAccepted_def
      HEX_COLOR_REGEX_matches HEX_COLOR_NO_HASH_REGEX_matches named_color_iff
    by (auto split: list.splits)
  moreover have "isValid (validateColor v) = False \<and> severity (validateColor v) = Some Error"
    if "\<not> colorAccepted v"
    using that unfolding validateColor_def colorAccepted_def
      HEX_COLOR_REGEX_matches HEX_COLOR_NO_HASH_REGEX_matches named_color_iff
    by (auto simp: invalid_def split: list.splits)
  ultimately show ?thesis
    by (auto simp: valid_def)
qed

theorem color_validation_witness:
  "isValid (validateColor ''#ff0000ff'') \<and> isValid (validateColor ''BLACK'')
   \<and> isValid (validateColor ''#ff00'') = False \<and> severity (validateColor ''#ff00'') = Some Error"
proof -
  have h1: "colorAccepted ''#ff0000ff''" by code_simp
  have h2: "colorAccepted ''BLACK''" by code_simp
  have h3: "\<not> colorAccepted ''#ff00''" by code_simp
  show ?thesis
    using color_validation [of "''#ff0000ff''"] color_validation [of "''BLACK''"]
      color_validation [of "''#ff00''"] h1 h2 h3
    by blast
qed


section \<open>Key position and value position\<close>

text \<open>
  C8: for every line and every cursor offset exactly one of \<open>isInKeyPosition\<close> and
  \<open>isInValuePosition\<close> holds; the first holds iff the line has no \<open>=\<close> or the offset
  is at most the index of the first \<open>=\<close>, the second iff there is a \<open>=\<close> and the
  offset is greater than the index of the first one.
\<close>

theorem key_or_value_position:
  "(isInKeyPosition line character \<noteq> isInValuePosition line character)
   \<and> (isInKeyPosition line character \<longleftrightarrow>
        CHR ''='' \<notin> set line
        \<or> (\<exists>e \<in> {..<length line}. isFirstIndexOf line CHR ''='' e \<and> character \<le> int e))
   \<and> (isInValuePosition line character \<longleftrightarrow>
        CHR ''='' \<in> set line
        \<and> (\<exists>e \<in> {..<length line}. isFirstIndexOf line CHR ''='' e \<and> int e < character))"
proof (cases "CHR ''='' \<in> set line")
  case False
  then show ?thesis
    by (simp add: isInKeyPosition_def isInValuePosition_def indexOf_def)
next
  case True
  define e where "e = length (takeWhile (\<lambda>x. x \<noteq> CHR ''='') line)"
  have f: "isFirstIndexOf line CHR ''='' e' \<longleftrightarrow> e' = e" for e'
    using True by (simp add: isFirstIndexOf_iff e_def)
  have lt: "e < length line"
    using f[of e] by (simp add: isFirstIndexOf_def)
  have idx: "indexOf line CHR ''='' = int e"
    using True by (simp add: indexOf_def e_def)
  have ex: "(\<exists>e' \<in> {..<length line}. isFirstIndexOf line CHR ''='' e' \<and> P e') \<longleftrightarrow> P e" for P
    using f lt by auto
  show ?thesis
    unfolding ex isInKeyPosition_def isInValuePosition_def idx Let_def
    using True by auto
qed


theorem key_or_value_position_witness:
  "isInKeyPosition ''font-size = 14'' 10 \<and> \<not> isInValuePosition ''font-size = 14'' 10
   \<and> isInValuePosition ''font-size = 14'' 11 \<and> \<not> isInKeyPosition ''font-size = 14'' 11
   \<and> isInKeyPosition ''font-size'' 4 \<and> \<not> isInValuePosition ''font-size'' 4"
proof -
  have f: "isFirstIndexOf ''font-size = 14'' CHR ''='' 10"
    by code_simp
  have h1: "\<exists>e \<in> {..<length ''font-size = 14''}.
              isFirstIndexOf ''font-size = 14'' CHR ''='' e \<and> (10::int) \<le> int e"
    using f by (intro bexI [of _ 10]) simp_all
  have h2: "CHR ''='' \<in> set ''font-size = 14''
            \<and> (\<exists>e \<in> {..<length ''font-size = 14''}.
                  isFirstIndexOf ''font-size = 14'' CHR ''='' e \<and> int e < (11::int))"
    using f by (intro conjI bexI [of _ 10]) simp_all
  have h3: "CHR ''='' \<notin> set ''font-size''"
    by simp
  show ?thesis
    using key_or_value_position [of "''font-size = 14''" 10]
      key_or_value_position [of "''font-size = 14''" 11]
      key_or_value_position [of "''font-size''" 4] h1 h2 h3
    by blast
qed

section \<open>The value range of a key/value line\<close>

lemma trimEnd_decomp: "s = trimEnd s @ rev (takeWhile isWhiteSpace (rev s))"
proof -
  have "rev (takeWhile isWhiteSpace (rev s) @ dropWhile isWhiteSpace (rev s)) = rev (rev s)"
    by (simp only: takeWhile_dropWhile_id)
  then have "rev (dropWhile isWhiteSpace (rev s)) @ rev (takeWhile isWhiteSpace (rev s)) = s"
    by (simp only: rev_append rev_rev_ident)
  then show ?thesis
    by (simp only: trimEnd_def)
qed

lemma trimEnd_length: "isTrimmedLength s (length (trimEnd s))"
proof -
  define t where "t = rev (takeWhile isWhiteSpace (rev s))"
  have s: "s = trimEnd s @ t"
    unfolding t_def by (rule trimEnd_decomp)
  have ws: "\<forall>c \<in> set t. isWhiteSpace c"
    unfolding t_def by (auto dest: set_takeWhileD)
  have a: "length (trimEnd s) \<le> length s"
    by (metis s length_append le_add1)
  have b: "isWhiteSpace (s ! j)" if "length (trimEnd s) \<le> j" "j < length s" for j
  proof -
    have "s ! j = t ! (j - length (trimEnd s))"
      using that by (metis s nth_append not_less)
    moreover have "j - length (trimEnd s) < length t"
      using that s by (metis length_append less_diff_conv2 add.commute)
    ultimately show ?thesis using ws by auto
  qed
  have c: "\<not> isWhiteSpace (s ! (length (trimEnd s) - 1))" if "length (trimEnd s) \<noteq> 0"
  proof -
    have ne: "dropWhile isWhiteSpace (rev s) \<noteq> []"
      using that by (simp add: trimEnd_def)
    have "s ! (length (trimEnd s) - 1) = trimEnd s ! (length (trimEnd s) - 1)"
      using that by (metis s nth_append diff_less length_greater_0_conv zero_less_one length_0_conv)
    also have "\<dots> = last (trimEnd s)"
      using that by (simp add: last_conv_nth)
    also have "\<dots> = hd (dropWhile isWhiteSpace (rev s))"
      using ne by (simp add: trimEnd_def last_rev)
    finally show ?thesis
      using ne by (simp add: hd_dropWhile)
  qed
  show ?thesis
    unfolding isTrimmedLength_def using a b c by auto
qed

lemma KEY_VALUE_exec_equals: "KEY_VALUE_exec line = Some g \<Longrightarrow> CHR ''='' \<in> set line"
proof -
  assume a: "KEY_VALUE_exec line = Some g"
  then obtain c r where cr: "dropWhile isWhiteSpace line = c # r"
    by (auto simp: KEY_VALUE_exec_def Let_def split: list.splits)
  with a obtain r' where "dropWhile isWhiteSpace (dropWhile isKeyChar r) = CHR ''='' # r'"
    by (auto simp: KEY_VALUE_exec_def Let_def split: list.splits if_splits)
  then have "CHR ''='' \<in> set (dropWhile isWhiteSpace (dropWhile isKeyChar r))"
    by simp
  then have "CHR ''='' \<in> set r"
    by (blast dest: set_dropWhileD)
  then have "CHR ''='' \<in> set (dropWhile isWhiteSpace line)"
    using cr by simp
  then show ?thesis
    by (blast dest: set_dropWhileD)
qed

lemma first_after:
  assumes "e < length s" and "\<exists>i \<in> {e<..<length s}. \<not> isWhiteSpace (s ! i)"
  shows "isFirstNonWhiteSpaceAfter s e (e + 1 + length (takeWhile isWhiteSpace (drop (e + 1) s)))"
proof -
  define u where "u = drop (e + 1) s"
  define k where "k = length (takeWhile isWhiteSpace u)"
  from assms(2) obtain i where i: "e < i" "i < length s" "\<not> isWhiteSpace (s ! i)"
    by auto
  then have "s ! i = u ! (i - (e + 1))" "i - (e + 1) < length u"
    by (auto simp: u_def)
  with i(3) have "\<exists>c \<in> set u. \<not> isWhiteSpace c"
    by (metis nth_mem)
  then have "takeWhile isWhiteSpace u \<noteq> u"
    by (metis takeWhile_eq_all_conv)
  then have klt: "k < length u"
    unfolding k_def by (metis length_takeWhile_le le_neq_implies_less takeWhile_eq_take take_all_iff linorder_not_less)
  then have "\<not> isWhiteSpace (u ! k)"
    unfolding k_def by (rule nth_length_takeWhile)
  moreover have uk: "u ! j = s ! (e + 1 + j)" if "j < length u" for j
    using that by (simp add: u_def)
  ultimately have nws: "\<not> isWhiteSpace (s ! (e + 1 + k))"
    using klt by simp
  have lt: "e + 1 + k < length s"
    using klt by (simp add: u_def)
  have ws: "isWhiteSpace (s ! j)" if "e < j" "j < e + 1 + k" for j
  proof -
    have jk: "j - (e + 1) < k" using that by simp
    then have "takeWhile isWhiteSpace u ! (j - (e + 1)) = u ! (j - (e + 1))"
      unfolding k_def by (rule takeWhile_nth)
    moreover have "takeWhile isWhiteSpace u ! (j - (e + 1)) \<in> set (takeWhile isWhiteSpace u)"
      using jk unfolding k_def by (rule nth_mem)
    ultimately have "isWhiteSpace (u ! (j - (e + 1)))"
      by (metis set_takeWhileD)
    moreover have "u ! (j - (e + 1)) = s ! j"
      using uk[of "j - (e + 1)"] jk klt that by simp
    ultimately show ?thesis by simp
  qed
  show ?thesis
    unfolding isFirstNonWhiteSpaceAfter_def u_def[symmetric] k_def[symmetric]
    using nws lt ws by auto
qed



text \<open>
  C3, as stated: on every key/value line the character at \<open>valueRange.start\<close> is the first
  character after the first \<open>=\<close> that is not white space. A line with an empty value has
  no such character: for \<open>a=\<close> the start of the value range is 2, the length of the line.
\<close>

theorem value_range_counterexample:
  "pl_type (parseLine ''a='' 0) = KeyValue
   \<and> valueRange (parseLine ''a='' 0) = Some \<lparr>range_start = 2, range_end = 2\<rparr>
   \<and> elemAt ''a='' 2 = None"
  by code_simp

text \<open>
  C3, amended: on every key/value line \<open>valueRange.end\<close> is the length of the line
  without its trailing white space; and when some character after the line's first \<open>=\<close>
  is not white space, \<open>valueRange.start\<close> is the index of the first such character.
\<close>

theorem value_range:
  assumes "pl_type (parseLine line n) = KeyValue"
  shows "\<exists>e vr. isFirstIndexOf line CHR ''='' e
           \<and> valueRange (parseLine line n) = Some vr
           \<and> 0 \<le> range_end vr \<and> isTrimmedLength line (nat (range_end vr))
           \<and> ((\<exists>i \<in> {e<..<length line}. \<not> isWhiteSpace (line ! i)) \<longrightarrow>
                 0 \<le> range_start vr
                 \<and> isFirstNonWhiteSpaceAfter line e (nat (range_start vr)))"
proof -
  from assms obtain indent key v where ex: "KEY_VALUE_exec line = Some (indent, key, v)"
    by (auto simp: parseLine_def split: if_splits option.splits)
  then have eq: "CHR ''='' \<in> set line"
    by (rule KEY_VALUE_exec_equals)
  define e where "e = length (takeWhile (\<lambda>x. x \<noteq> CHR ''='') line)"
  have first: "isFirstIndexOf line CHR ''='' e"
    using eq by (simp add: isFirstIndexOf_iff e_def)
  then have lt: "e < length line"
    by (simp add: isFirstIndexOf_def)
  have idx: "indexOf line CHR ''='' = int e"
    using eq by (simp add: indexOf_def e_def)
  define u where "u = drop (e + 1) line"
  have sub: "substringFrom line (int e + 1) = u"
    using lt by (simp add: substringFrom_def clampIndex_def u_def nat_add_distrib)
  define vr where
    "vr = \<lparr>range_start = int e + 1 + (int (length u) - int (length (trimStart u))),
           range_end = int (length (trimEnd line))\<rparr>"
  have vr: "valueRange (parseLine line n) = Some vr"
    using assms ex by (simp add: parseLine_def Let_def idx sub vr_def split: if_splits)
  have "length u = length (takeWhile isWhiteSpace u) + length (dropWhile isWhiteSpace u)"
    by (metis length_append takeWhile_dropWhile_id)
  then have start: "range_start vr = int (e + 1 + length (takeWhile isWhiteSpace u))"
    by (simp add: vr_def trimStart_def)
  have "isFirstNonWhiteSpaceAfter line e (nat (range_start vr))"
    if "\<exists>i \<in> {e<..<length line}. \<not> isWhiteSpace (line ! i)"
  proof -
    have "nat (range_start vr) = e + 1 + length (takeWhile isWhiteSpace (drop (e + 1) line))"
      unfolding start u_def by (rule nat_int)
    then show ?thesis
      using first_after [OF lt that] by simp
  qed
  moreover have "isTrimmedLength line (nat (range_end vr))"
    using trimEnd_length [of line] by (simp add: vr_def)
  moreover have "0 \<le> range_end vr"
    by (simp add: vr_def)
  moreover have "0 \<le> range_start vr"
    unfolding start by simp
  ultimately show ?thesis
    using first vr by blast
qed

theorem value_range_witness:
  "valueRange (parseLine ''  font-size =   14  '' 3) = Some \<lparr>range_start = 16, range_end = 18\<rparr>
   \<and> isFirstIndexOf ''  font-size =   14  '' CHR ''='' 12
   \<and> isFirstNonWhiteSpaceAfter ''  font-size =   14  '' 12 16
   \<and> isTrimmedLength ''  font-size =   14  '' 18"
proof -
  have h: "pl_type (parseLine ''  font-size =   14  '' 3) = KeyValue"
    by code_simp
  obtain e vr where a: "isFirstIndexOf ''  font-size =   14  '' CHR ''='' e"
    and b: "valueRange (parseLine ''  font-size =   14  '' 3) = Some vr"
    and c: "isTrimmedLength ''  font-size =   14  '' (nat (range_end vr))"
    and d: "(\<exists>i \<in> {e<..<length ''  font-size =   14  ''}.
               \<not> isWhiteSpace (''  font-size =   14  '' ! i)) \<longrightarrow>
            isFirstNonWhiteSpaceAfter ''  font-size =   14  '' e (nat (range_start vr))"
    using value_range [OF h] by blast
  have e: "e = 12"
    using a by (simp add: isFirstIndexOf_iff)
  have vr: "valueRange (parseLine ''  font-size =   14  '' 3)
              = Some \<lparr>range_start = 16, range_end = 18\<rparr>"
    by code_simp
  have x: "\<exists>i \<in> {12<..<length ''  font-size =   14  ''}.
             \<not> isWhiteSpace (''  font-size =   14  '' ! i)"
    by (rule bexI [of _ 16]) (simp_all add: isWhiteSpace_def)
  show ?thesis
    using a b c d e vr x by auto
qed

section \<open>Key completion\<close>

lemma includesStr_empty [simp]: "includesStr s []"
  by (simp add: includesStr_def)

lemma key_filter_iff:
  "\<not> (toLowerCase (trim t) \<noteq> [] \<and> \<not> includesStr (toLowerCase key) (toLowerCase (trim t)))
     \<longleftrightarrow> keyMatches t key"
  by (auto simp: keyMatches_def containsIgnoreCase_def includesStr_def)

lemma label_keyItem [simp]: "label (keyItem key option) = key"
  by (simp add: keyItem_def newItem_def Let_def)

lemma sortKey_keyItem:
  "sortKey (keyItem key option) = (if isDeprecated option then ''z_'' @ key else key)"
  by (simp add: keyItem_def newItem_def Let_def sortKey_def isDeprecated_def)

lemma tags_keyItem: "Deprecated \<in> set (tags (keyItem key option)) \<longleftrightarrow> isDeprecated option"
  by (simp add: keyItem_def newItem_def Let_def isDeprecated_def)

lemma getKeyCompletions_eq:
  "getKeyCompletions schema t =
     map (\<lambda>(key, option). keyItem key option)
       (filter (\<lambda>(key, option). keyMatches t key) (options schema))"
  unfolding getKeyCompletions_def Let_def key_filter_iff ..

lemma getKeyCompletions_labels:
  "map label (getKeyCompletions schema t) = filter (keyMatches t) (map fst (options schema))"
  unfolding getKeyCompletions_eq
  by (induction "options schema" arbitrary: schema) (auto simp: filter_map o_def split_def)


lemma count_list_distinct: "distinct xs \<Longrightarrow> count_list xs k = (if k \<in> set xs then 1 else 0)"
  by (induction xs) auto

lemma getKeyCompletions_item:
  assumes "item \<in> set (getKeyCompletions schema t)"
  shows "\<exists>option. (label item, option) \<in> set (options schema)
           \<and> (Deprecated \<in> set (tags item) \<longleftrightarrow> isDeprecated option)
           \<and> sortKey item = (if isDeprecated option then ''z_'' @ label item else label item)"
proof -
  from assms obtain key option where ko: "(key, option) \<in> set (options schema)"
    and item: "item = keyItem key option"
    unfolding getKeyCompletions_eq by auto
  have "(label item, option) \<in> set (options schema)"
    using ko item by simp
  moreover have "Deprecated \<in> set (tags item) \<longleftrightarrow> isDeprecated option"
    using item by (simp add: tags_keyItem)
  moreover have "sortKey item = (if isDeprecated option then ''z_'' @ label item else label item)"
    using item by (simp add: sortKey_keyItem)
  ultimately show ?thesis by blast
qed

lemma completeKey_spec_set:
  "set (completeKey_spec schema t) = set (filter (keyMatches t) (map fst (options schema)))"
proof -
  have "set (completeKey_spec schema t) =
          fst ` {x \<in> set (options schema). keyMatches t (fst x) \<and> \<not> isDeprecated (snd x)}
          \<union> fst ` {x \<in> set (options schema). keyMatches t (fst x) \<and> isDeprecated (snd x)}"
    by (simp add: completeKey_spec_def Let_def split_def)
  also have "\<dots> = fst ` {x \<in> set (options schema). keyMatches t (fst x)}"
    by blast
  also have "\<dots> = set (filter (keyMatches t) (map fst (options schema)))"
    by auto
  finally show ?thesis .
qed

text \<open>
  C4, as stated: the list returned by key completion holds the matching keys ordered with
  the keys that are not deprecated first, in lexicographic order, and the deprecated keys
  after them, in lexicographic order. The list is in the order of the schema: for the
  partial text \<open>font\<close> it is \<open>font-size, font-family\<close>, and the order described is
  \<open>font-family, font-size\<close>.
\<close>

theorem key_completion_counterexample:
  "map label (getKeyCompletions sampleSchema ''font'') = [''font-size'', ''font-family'']
   \<and> completeKey_spec sampleSchema ''font'' = [''font-family'', ''font-size'']"
  by code_simp

text \<open>
  C4, amended: the list returned by key completion holds each matching schema key exactly
  once, in the order of the schema; these are the keys of the list the specification
  describes; with an empty (or blank) partial text it holds every schema key. The order is
  left to the editor: an item that is not deprecated is sorted by its key, a deprecated item
  carries the tag and is sorted by \<open>z_\<close> followed by its key, so that among the items that
  are not deprecated, and among the deprecated ones, the sort order is the lexicographic
  order of the keys.
\<close>

theorem key_completion:
  assumes "distinct (map fst (options schema))"
  shows "map label (getKeyCompletions schema t) = filter (keyMatches t) (map fst (options schema))
    \<and> (\<forall>key. count_list (map label (getKeyCompletions schema t)) key =
          (if key \<in> fst ` set (options schema) \<and> keyMatches t key then 1 else 0))
    \<and> set (map label (getKeyCompletions schema t)) = set (completeKey_spec schema t)
    \<and> (trim t = [] \<longrightarrow> map label (getKeyCompletions schema t) = map fst (options schema))
    \<and> (\<forall>item \<in> set (getKeyCompletions schema t).
          \<exists>option. (label item, option) \<in> set (options schema)
            \<and> (Deprecated \<in> set (tags item) \<longleftrightarrow> isDeprecated option)
            \<and> sortKey item = (if isDeprecated option then ''z_'' @ label item else label item))
    \<and> (\<forall>a \<in> set (getKeyCompletions schema t). \<forall>b \<in> set (getKeyCompletions schema t).
          (Deprecated \<in> set (tags a) \<longleftrightarrow> Deprecated \<in> set (tags b)) \<longrightarrow>
          (sortKey a < sortKey b \<longleftrightarrow> label a < label b))"
proof (intro conjI allI ballI impI)
  show labels: "map label (getKeyCompletions schema t) = filter (keyMatches t) (map fst (options schema))"
    by (rule getKeyCompletions_labels)
  show "count_list (map label (getKeyCompletions schema t)) key =
          (if key \<in> fst ` set (options schema) \<and> keyMatches t key then 1 else 0)" for key
  proof -
    have "distinct (filter (keyMatches t) (map fst (options schema)))"
      using assms by (rule distinct_filter)
    then show ?thesis
      unfolding labels by (simp add: count_list_distinct)
  qed
  show "set (map label (getKeyCompletions schema t)) = set (completeKey_spec schema t)"
    unfolding labels completeKey_spec_set ..
  show "map label (getKeyCompletions schema t) = map fst (options schema)" if "trim t = []"
  proof -
    have "keyMatches t key" for key
      using that by (simp add: keyMatches_def containsIgnoreCase_def toLowerCase_def)
    then show ?thesis
      unfolding labels by simp
  qed
  show "\<exists>option. (label item, option) \<in> set (options schema)
            \<and> (Deprecated \<in> set (tags item) \<longleftrightarrow> isDeprecated option)
            \<and> sortKey item = (if isDeprecated option then ''z_'' @ label item else label item)"
    if "item \<in> set (getKeyCompletions schema t)" for item
    using that by (rule getKeyCompletions_item)
  show "sortKey a < sortKey b \<longleftrightarrow> label a < label b"
    if a: "a \<in> set (getKeyCompletions schema t)" and b: "b \<in> set (getKeyCompletions schema t)"
      and same: "Deprecated \<in> set (tags a) \<longleftrightarrow> Deprecated \<in> set (tags b)" for a b
  proof -
    from getKeyCompletions_item [OF a] obtain oa where
      oa: "Deprecated \<in> set (tags a) \<longleftrightarrow> isDeprecated oa"
        "sortKey a = (if isDeprecated oa then ''z_'' @ label a else label a)"
      by blast
    from getKeyCompletions_item [OF b] obtain ob where
      ob: "Deprecated \<in> set (tags b) \<longleftrightarrow> isDeprecated ob"
        "sortKey b = (if isDeprecated ob then ''z_'' @ label b else label b)"
      by blast
    show ?thesis
      using oa ob same by (cases "isDeprecated oa") auto
  qed
qed

theorem key_completion_witness:
  "map label (getKeyCompletions sampleSchema ''Font '') = [''font-size'', ''font-family'']
   \<and> count_list (map label (getKeyCompletions sampleSchema ''Font '')) ''font-size'' = 1
   \<and> count_list (map label (getKeyCompletions sampleSchema ''Font '')) ''theme'' = 0
   \<and> map label (getKeyCompletions sampleSchema ''  '') =
       [''font-size'', ''background'', ''keybind'', ''window-decoration'', ''cursor-style'',
        ''bold-is-bright'', ''theme'', ''font-family'']"
proof -
  have h: "distinct (map fst (options sampleSchema))"
    by code_simp
  have blank: "trim ''  '' = []"
    by code_simp
  have a: "filter (keyMatches ''Font '') (map fst (options sampleSchema))
             = [''font-size'', ''font-family'']"
    by code_simp
  have b: "(if ''font-size'' \<in> fst ` set (options sampleSchema) \<and> keyMatches ''Font '' ''font-size''
            then 1 else 0) = (1::nat)"
    by code_simp
  have c: "(if ''theme'' \<in> fst ` set (options sampleSchema) \<and> keyMatches ''Font '' ''theme''
            then 1 else 0) = (0::nat)"
    by code_simp
  have d: "map fst (options sampleSchema) =
       [''font-size'', ''background'', ''keybind'', ''window-decoration'', ''cursor-style'',
        ''bold-is-bright'', ''theme'', ''font-family'']"
    by code_simp
  note A = key_completion [OF h, of "''Font ''"]
  note B = key_completion [OF h, of "''  ''"]
  have cnt: "count_list (map label (getKeyCompletions sampleSchema ''Font '')) key =
               (if key \<in> fst ` set (options sampleSchema) \<and> keyMatches ''Font '' key
                then 1 else 0)" for key
    using conjunct1 [OF conjunct2 [OF A]] by (rule spec)
  have all: "map label (getKeyCompletions sampleSchema ''  '') = map fst (options sampleSchema)"
    using conjunct1 [OF conjunct2 [OF conjunct2 [OF conjunct2 [OF B]]]] blank by (rule mp)
  show ?thesis
    using trans [OF conjunct1 [OF A] a] trans [OF cnt b] trans [OF cnt c] trans [OF all d]
    by (intro conjI)
qed

text \<open>
  What the amended claim leaves open: the prefix \<open>z_\<close> does not put every deprecated key
  after every other key. A deprecated key \<open>abc\<close> is sorted by \<open>z_abc\<close>, before a key
  \<open>zoom\<close> that is not deprecated.
\<close>

lemma deprecated_key_sorted_before_other_key:
  "map sortKey
     (getKeyCompletions
        (sampleSchema\<lparr>options :=
           [(''abc'', (sampleOption TBoolean)\<lparr>opt_deprecated := Some True\<rparr>),
            (''zoom'', sampleOption TString)]\<rparr>) [])
     = [''z_abc'', ''zoom'']
   \<and> ''z_abc'' < ''zoom''"
  by code_simp

section \<open>Value completion\<close>

lemma partialValue_lower: "toLowerCase (partialValue t) = partialValue t"
  by (simp add: partialValue_def Let_def toLowerCase_idem) (simp add: toLowerCase_def)

lemma contains_lower:
  "toLowerCase p = p \<Longrightarrow> (p = [] \<or> includesStr (toLowerCase c) p) \<longleftrightarrow> containsIgnoreCase c p"
  by (auto simp: containsIgnoreCase_def includesStr_def)

lemma label_newItem [simp]: "label (newItem l k) = l"
  by (simp add: newItem_def)

lemma map_fst_filter: "map fst (filter (\<lambda>(l, d). P l) xs) = filter P (map fst xs)"
  by (induction xs) auto

lemma split_unfold:
  "split s c = takeWhile (\<lambda>x. x \<noteq> c) s
     # (case dropWhile (\<lambda>x. x \<noteq> c) s of [] \<Rightarrow> [] | _ # r \<Rightarrow> split r c)"
  by (induction s) (auto split: list.splits)

lemma split_second:
  assumes "c \<in> set s"
  shows "elemAt (split s c) 1
           = Some (takeWhile (\<lambda>x. x \<noteq> c) (drop 1 (dropWhile (\<lambda>x. x \<noteq> c) s)))"
proof -
  from assms have "dropWhile (\<lambda>x. x \<noteq> c) s \<noteq> []"
    by (simp add: dropWhile_eq_Nil_conv)
  then obtain d r where dr: "dropWhile (\<lambda>x. x \<noteq> c) s = d # r"
    by (cases "dropWhile (\<lambda>x. x \<noteq> c) s") auto
  have "split s c = takeWhile (\<lambda>x. x \<noteq> c) s # split r c"
    using split_unfold [of s c] dr by simp
  moreover obtain h t where ht: "split r c = h # t"
    using split_nonempty [of r c] by (cases "split r c") auto
  moreover have "h = takeWhile (\<lambda>x. x \<noteq> c) r"
    using split_head [of r c] ht by simp
  ultimately show ?thesis
    using dr by (simp add: elemAt_def)
qed

lemma getBooleanCompletions_labels:
  "map label (getBooleanCompletions p) = filter (\<lambda>c. prefix p c) [''true'', ''false'']"
  by (auto simp: getBooleanCompletions_def startsWith_def)

lemma namedColors_lower: "c \<in> set namedColors \<Longrightarrow> toLowerCase c = c"
proof -
  have "list_all (\<lambda>c. toLowerCase c = c) namedColors"
    by code_simp
  then show "c \<in> set namedColors \<Longrightarrow> toLowerCase c = c"
    by (simp add: list_all_iff)
qed

lemma hexTemplate_filter:
  assumes "toLowerCase p = p"
  shows "(p = [] \<or> includesStr (toLowerCase ''#RRGGBB'') p \<or> startsWith ''#'' p)
           \<longleftrightarrow> containsIgnoreCase ''#RRGGBB'' p"
proof -
  have low: "toLowerCase ''#RRGGBB'' = ''#rrggbb''"
    by code_simp
  have "sublist p ''#rrggbb''" if "prefix p ''#''"
  proof -
    have "prefix ''#'' ''#rrggbb''" by simp
    with that have "prefix p ''#rrggbb''" by (rule prefix_order.trans)
    then show ?thesis by (rule prefix_imp_sublist)
  qed
  then show ?thesis
    unfolding containsIgnoreCase_def assms low includesStr_def startsWith_def by auto
qed

lemma getColorCompletions_labels:
  assumes "toLowerCase p = p"
  shows "map label (getColorCompletions p)
           = filter (\<lambda>c. containsIgnoreCase c p) (map fst hexTemplates @ namedColors)"
proof -
  have a: "map label
             (map (\<lambda>(l, ins, d). (newItem l KColor)\<lparr>insertText := Some ins, detail := Some d\<rparr>)
                (filter (\<lambda>(l, ins, d). p = [] \<or> includesStr (toLowerCase l) p \<or> startsWith ins p)
                   hexTemplates))
           = filter (\<lambda>c. containsIgnoreCase c p) (map fst hexTemplates)"
    using hexTemplate_filter [OF assms] by (simp add: hexTemplates_def)
  have "(p = [] \<or> includesStr c p) \<longleftrightarrow> containsIgnoreCase c p" if "c \<in> set namedColors" for c
    using contains_lower [OF assms, of c] namedColors_lower [OF that] by simp
  then have "filter (\<lambda>c. p = [] \<or> includesStr c p) namedColors
               = filter (\<lambda>c. containsIgnoreCase c p) namedColors"
    by (intro filter_cong) auto
  then have b: "map label
             (map (\<lambda>color. (newItem color KColor)\<lparr>detail := Some ''Named colour''\<rparr>)
                (filter (\<lambda>color. p = [] \<or> includesStr color p) namedColors))
           = filter (\<lambda>c. containsIgnoreCase c p) namedColors"
    by (simp add: o_def)
  show ?thesis
    unfolding getColorCompletions_def map_append filter_append a b ..
qed

lemma getEnumCompletions_labels:
  assumes "toLowerCase p = p"
  shows "map label (getEnumCompletions option p)
           = filter (\<lambda>c. containsIgnoreCase c p)
               (case opt_enum option of None \<Rightarrow> [] | Some enum \<Rightarrow> enum)"
  by (simp add: getEnumCompletions_def contains_lower [OF assms] o_def split: option.splits)

lemma getExampleCompletions_labels:
  assumes "toLowerCase p = p"
  shows "map label (getExampleCompletions option p)
           = filter (\<lambda>c. containsIgnoreCase c p)
               (case opt_examples option of None \<Rightarrow> [] | Some examples \<Rightarrow> examples)"
  by (simp add: getExampleCompletions_def contains_lower [OF assms] o_def split: option.splits)

lemma getThemeCompletions_labels:
  assumes "toLowerCase p = p"
  shows "map label (getThemeCompletions p)
           = filter (\<lambda>c. containsIgnoreCase c p) themes
             @ (if sublist p ''light:'' \<or> sublist p ''dark:'' then [label themeCombination] else [])"
proof -
  have "(p = [] \<or> includesStr ''light:'' p \<or> includesStr ''dark:'' p)
          \<longleftrightarrow> (sublist p ''light:'' \<or> sublist p ''dark:'')"
    by (auto simp: includesStr_def)
  then show ?thesis
    by (simp add: getThemeCompletions_def contains_lower [OF assms] o_def)
qed

lemma getKeybindCompletions_labels:
  assumes "toLowerCase p = p"
  shows "map label (getKeybindCompletions schema p)
           = (if CHR ''='' \<in> set p
              then filter (\<lambda>c. containsIgnoreCase c (betweenEquals p)) (keybindActions schema)
              else filter (\<lambda>c. containsIgnoreCase c p) (map fst commonPatterns @ commonKeybinds))"
proof (cases "CHR ''='' \<in> set p")
  case True
  then have inc: "includesStr p ''=''"
    by (auto simp: includesStr_def sublist_def in_set_conv_decomp)
  have seg: "elemAt (split p CHR ''='') (Suc 0) = Some (betweenEquals p)"
    using split_second [OF True] by (simp add: betweenEquals_def)
  have f: "(toLowerCase q = [] \<or> includesStr (toLowerCase c) (toLowerCase q))
             \<longleftrightarrow> containsIgnoreCase c q" for c q
    by (auto simp: containsIgnoreCase_def includesStr_def)
  show ?thesis
    using True
    by (simp add: getKeybindCompletions_def inc seg f keybindActions_def o_def
             split: option.splits)
next
  case False
  then have inc: "\<not> includesStr p ''=''"
    by (auto simp: includesStr_def sublist_def)
  have a: "map label (map (\<lambda>(l, d). (newItem l KKeyword)\<lparr>detail := Some d\<rparr>) xs) = map fst xs"
    for xs :: "(string \<times> string) list"
    by (induction xs) auto
  have b: "filter (\<lambda>(l, d). p = [] \<or> includesStr (toLowerCase l) p) xs
             = filter (\<lambda>(l, d). containsIgnoreCase l p) xs" for xs :: "(string \<times> string) list"
    using contains_lower [OF assms] by simp
  have pat: "map label
               (map (\<lambda>(l, d). (newItem l KKeyword)\<lparr>detail := Some d\<rparr>)
                  (filter (\<lambda>(l, d). p = [] \<or> includesStr (toLowerCase l) p) commonPatterns))
             = filter (\<lambda>c. containsIgnoreCase c p) (map fst commonPatterns)"
    unfolding a b map_fst_filter ..
  have kb: "map label
              (map (\<lambda>kb. (newItem kb KSnippet)\<lparr>detail := Some ''Common keybind''\<rparr>)
                 (filter (\<lambda>kb. p = [] \<or> includesStr (toLowerCase kb) p) commonKeybinds))
            = filter (\<lambda>c. containsIgnoreCase c p) commonKeybinds"
    by (simp add: contains_lower [OF assms] o_def)
  show ?thesis
    unfolding getKeybindCompletions_def
    by (simp only: inc False if_False map_append filter_append pat kb)
qed


text \<open>
  C5, as stated: for every option type the candidates are filtered by case-insensitive
  substring containment of the partial text in the candidate. For a boolean option the
  filter is a prefix match: \<open>true\<close> contains \<open>rue\<close>, and the partial text \<open>rue\<close> yields no
  candidate.
\<close>

theorem value_completion_counterexample:
  "map_of (options sampleSchema) ''bold-is-bright''
     = Some ((sampleOption TBoolean)\<lparr>opt_deprecated := Some True\<rparr>)
   \<and> partialValue ''bold-is-bright = rue'' = ''rue''
   \<and> containsIgnoreCase ''true'' ''rue''
   \<and> getValueCompletions sampleSchema ''bold-is-bright'' ''bold-is-bright = rue'' = []"
  by code_simp

text \<open>
  C5, amended: with \<open>p\<close> the partial text (the text after the first \<open>=\<close> before the
  cursor, trimmed, in lower case), the labels returned are the candidates, in their order,
  that pass the filter of the option's type:
  \<^item> boolean: \<open>p\<close> is a prefix of the candidate;
  \<^item> colour, enum, examples (every other type), and a keybind whose \<open>p\<close> has no \<open>=\<close>:
    the candidate contains \<open>p\<close>, letter case ignored;
  \<^item> a keybind whose \<open>p\<close> has a \<open>=\<close>: the candidates are the action vocabulary, and a
    candidate passes when it contains, letter case ignored, the text between the first and
    the second \<open>=\<close> of \<open>p\<close>;
  \<^item> theme: a theme name passes when it contains \<open>p\<close>, letter case ignored; the light/dark
    combination is offered when \<open>p\<close> is contained in \<open>light:\<close> or in \<open>dark:\<close>.
  With an empty \<open>p\<close> the labels are all the candidates of the type.
\<close>

theorem value_completion:
  assumes "map_of (options schema) key = Some option"
  shows "map label (getValueCompletions schema key t) =
     (let p = partialValue t
      in case opt_type option of
           TBoolean \<Rightarrow> filter (\<lambda>c. prefix p c) [''true'', ''false'']
         | TColor \<Rightarrow> filter (\<lambda>c. containsIgnoreCase c p) (map fst hexTemplates @ namedColors)
         | TEnum \<Rightarrow>
             filter (\<lambda>c. containsIgnoreCase c p)
               (case opt_enum option of None \<Rightarrow> [] | Some enum \<Rightarrow> enum)
         | TKeybind \<Rightarrow>
             if CHR ''='' \<in> set p
             then filter (\<lambda>c. containsIgnoreCase c (betweenEquals p)) (keybindActions schema)
             else filter (\<lambda>c. containsIgnoreCase c p) (map fst commonPatterns @ commonKeybinds)
         | TTheme \<Rightarrow>
             filter (\<lambda>c. containsIgnoreCase c p) themes
             @ (if sublist p ''light:'' \<or> sublist p ''dark:''
                then [label themeCombination] else [])
         | _ \<Rightarrow>
             filter (\<lambda>c. containsIgnoreCase c p)
               (case opt_examples option of None \<Rightarrow> [] | Some examples \<Rightarrow> examples))
   \<and> (partialValue t = [] \<longrightarrow>
        map label (getValueCompletions schema key t) = valueCandidates schema option)"
proof -
  define p where "p = partialValue t"
  have low: "toLowerCase p = p"
    unfolding p_def by (rule partialValue_lower)
  note labels = getBooleanCompletions_labels getColorCompletions_labels [OF low]
    getEnumCompletions_labels [OF low] getKeybindCompletions_labels [OF low]
    getThemeCompletions_labels [OF low] getExampleCompletions_labels [OF low]
  have first: "map label (getValueCompletions schema key t) =
     (case opt_type option of
        TBoolean \<Rightarrow> filter (\<lambda>c. prefix p c) [''true'', ''false'']
      | TColor \<Rightarrow> filter (\<lambda>c. containsIgnoreCase c p) (map fst hexTemplates @ namedColors)
      | TEnum \<Rightarrow>
          filter (\<lambda>c. containsIgnoreCase c p)
            (case opt_enum option of None \<Rightarrow> [] | Some enum \<Rightarrow> enum)
      | TKeybind \<Rightarrow>
          if CHR ''='' \<in> set p
          then filter (\<lambda>c. containsIgnoreCase c (betweenEquals p)) (keybindActions schema)
          else filter (\<lambda>c. containsIgnoreCase c p) (map fst commonPatterns @ commonKeybinds)
      | TTheme \<Rightarrow>
          filter (\<lambda>c. containsIgnoreCase c p) themes
          @ (if sublist p ''light:'' \<or> sublist p ''dark:''
             then [label themeCombination] else [])
      | _ \<Rightarrow>
          filter (\<lambda>c. containsIgnoreCase c p)
            (case opt_examples option of None \<Rightarrow> [] | Some examples \<Rightarrow> examples))"
    unfolding getValueCompletions_def getProperty_own [OF assms] property.case Let_def
      p_def [symmetric]
    by (cases "opt_type option") (simp_all only: ConfigValueType.case labels)
  have all: "containsIgnoreCase c []" for c
    by (simp add: containsIgnoreCase_def toLowerCase_def)
  have second: "map label (getValueCompletions schema key t) = valueCandidates schema option"
    if "p = []"
    unfolding first valueCandidates_def that
    by (cases "opt_type option") (simp_all add: all)
  show ?thesis
    using first second unfolding p_def Let_def by blast
qed

theorem value_completion_witness:
  "map label (getValueCompletions sampleSchema ''cursor-style'' ''cursor-style = B'')
     = [''block'', ''bar'']
   \<and> map label (getValueCompletions sampleSchema ''cursor-style'' ''cursor-style = '')
     = [''block'', ''bar'', ''underline'']"
proof -
  have h: "map_of (options sampleSchema) ''cursor-style''
             = Some ((sampleOption TEnum)\<lparr>opt_enum := Some [''block'', ''bar'', ''underline'']\<rparr>)"
    by code_simp
  have e: "partialValue ''cursor-style = '' = []"
    by code_simp
  have a: "(let p = partialValue ''cursor-style = B''
      in case opt_type ((sampleOption TEnum)\<lparr>opt_enum := Some [''block'', ''bar'', ''underline'']\<rparr>) of
           TBoolean \<Rightarrow> filter (\<lambda>c. prefix p c) [''true'', ''false'']
         | TColor \<Rightarrow> filter (\<lambda>c. containsIgnoreCase c p) (map fst hexTemplates @ namedColors)
         | TEnum \<Rightarrow>
             filter (\<lambda>c. containsIgnoreCase c p)
               (case opt_enum ((sampleOption TEnum)\<lparr>opt_enum := Some [''block'', ''bar'', ''underline'']\<rparr>)
                of None \<Rightarrow> [] | Some enum \<Rightarrow> enum)
         | TKeybind \<Rightarrow>
             if CHR ''='' \<in> set p
             then filter (\<lambda>c. containsIgnoreCase c (betweenEquals p)) (keybindActions sampleSchema)
             else filter (\<lambda>c. containsIgnoreCase c p) (map fst commonPatterns @ commonKeybinds)
         | TTheme \<Rightarrow>
             filter (\<lambda>c. containsIgnoreCase c p) themes
             @ (if sublist p ''light:'' \<or> sublist p ''dark:''
                then [label themeCombination] else [])
         | _ \<Rightarrow>
             filter (\<lambda>c. containsIgnoreCase c p)
               (case opt_examples ((sampleOption TEnum)\<lparr>opt_enum := Some [''block'', ''bar'', ''underline'']\<rparr>)
                of None \<Rightarrow> [] | Some examples \<Rightarrow> examples))
       = [''block'', ''bar'']"
    by code_simp
  have b: "valueCandidates sampleSchema
             ((sampleOption TEnum)\<lparr>opt_enum := Some [''block'', ''bar'', ''underline'']\<rparr>)
           = [''block'', ''bar'', ''underline'']"
    by code_simp
  note A = value_completion [OF h, of "''cursor-style = B''"]
  note B = value_completion [OF h, of "''cursor-style = ''"]
  show ?thesis
    using trans [OF conjunct1 [OF A] a] trans [OF mp [OF conjunct2 [OF B] e] b]
    by (intro conjI)
qed


section \<open>Number values\<close>

lemma matches_TimesI: "matches r u \<Longrightarrow> matches t v \<Longrightarrow> matches (Times r t) (u @ v)"
  unfolding matches_Times by blast

lemma matches_Some1_Atom: "matches (Some1 (Atom p)) s \<longleftrightarrow> s \<noteq> [] \<and> list_all p s"
  by (cases s) (auto simp: Some1_def matches_Times matches_Star_Atom)

lemma matches_Opt: "matches (Opt r) s \<longleftrightarrow> s = [] \<or> matches r s"
  by (simp add: Opt_def del: matches.simps)

lemma matches_Lit: "matches (Lit l) s \<longleftrightarrow> s = l"
  by (induction l arbitrary: s) (auto simp: matches_Chr_Times simp del: matches.simps)

lemma numericStart_append: "numericStart b \<Longrightarrow> numericStart (b @ r)"
  by (auto simp: numericStart_def split: list.splits)

lemma numericStart_no_sign: "numericStart b \<Longrightarrow> unsign b = b"
  by (auto simp: numericStart_def unsign_def isDigit_def split: list.splits)

lemma unsignedLiteral_start:
  assumes "matches unsignedLiteral b"
  shows "numericStart b"
proof -
  from assms consider (inf) "b = ''Infinity''"
    | (dig) u w where "b = u @ w" "u \<noteq> []" "list_all isDigit u"
    | (dot) u w where "b = CHR ''.'' # u @ w" "u \<noteq> []" "list_all isDigit u"
    unfolding unsignedLiteral_def matches_Plus matches_Lit matches_Chr_Times
      matches_Times [of "Some1 (Atom isDigit)"] matches_Some1_Atom
    by blast
  then show ?thesis
  proof cases
    case inf
    then show ?thesis by (simp add: numericStart_def)
  next
    case dig
    then show ?thesis by (cases u) (auto simp: numericStart_def)
  next
    case dot
    then show ?thesis by (cases u) (auto simp: numericStart_def)
  qed
qed

lemma numericStart_literal:
  assumes "numericStart u"
  shows "\<exists>n \<le> length u. matches unsignedLiteral (take n u)"
proof -
  consider (inf) "prefix ''Infinity'' u"
    | (dig) c r where "u = c # r" "isDigit c"
    | (dot) d r where "u = CHR ''.'' # d # r" "isDigit d"
    using assms by (auto simp: numericStart_def split: list.splits)
  then show ?thesis
  proof cases
    case inf
    then obtain r where "u = ''Infinity'' @ r" by (auto simp: prefix_def)
    then have "take 8 u = ''Infinity''" "8 \<le> length u" by simp_all
    moreover have "matches unsignedLiteral ''Infinity''"
      by (simp add: unsignedLiteral_def matches_Lit del: matches.simps Lit.simps)
    ultimately show ?thesis by metis
  next
    case dig
    have "matches (Some1 (Atom isDigit)) [c]"
      using dig(2) by (simp add: matches_Some1_Atom del: matches.simps)
    moreover have "matches (Opt (Times (Chr CHR ''.'') (Star (Atom isDigit)))) []"
      and "matches (Opt exponentPart) []"
      by (simp_all add: matches_Opt del: matches.simps)
    ultimately have "matches (Times (Some1 (Atom isDigit))
        (Times (Opt (Times (Chr CHR ''.'') (Star (Atom isDigit)))) (Opt exponentPart)))
        ([c] @ [] @ [])"
      by (intro matches_TimesI)
    then have "matches unsignedLiteral [c]"
      by (simp add: unsignedLiteral_def del: matches.simps)
    moreover have "take 1 u = [c]" "1 \<le> length u"
      using dig(1) by simp_all
    ultimately show ?thesis by metis
  next
    case dot
    have "matches (Some1 (Atom isDigit)) [d]"
      using dot(2) by (simp add: matches_Some1_Atom del: matches.simps)
    moreover have "matches (Opt exponentPart) []"
      by (simp add: matches_Opt del: matches.simps)
    ultimately have "matches (Times (Some1 (Atom isDigit)) (Opt exponentPart)) ([d] @ [])"
      by (intro matches_TimesI)
    then have "matches unsignedLiteral [CHR ''.'', d]"
      by (simp add: unsignedLiteral_def matches_Chr_Times del: matches.simps)
    moreover have "take 2 u = [CHR ''.'', d]" "2 \<le> length u"
      using dot(1) by simp_all
    ultimately show ?thesis by metis
  qed
qed


lemma sign_matches:
  "matches (Opt (Plus (Chr CHR ''+'') (Chr CHR ''-''))) s
     \<longleftrightarrow> s = [] \<or> s = [CHR ''+''] \<or> s = [CHR ''-'']"
  by (simp add: matches_Opt del: matches.simps)

lemma hasFloatLiteralPrefix_iff: "hasFloatLiteralPrefix s \<longleftrightarrow> numericStart (unsign (trimStart s))"
proof
  define t where "t = trimStart s"
  assume "hasFloatLiteralPrefix s"
  then obtain n where n: "n \<le> length t" "matches floatLiteral (take n t)"
    by (auto simp: hasFloatLiteralPrefix_def isFloatLiteral_def t_def)
  then obtain s1 b where sb: "take n t = s1 @ b"
    "s1 = [] \<or> s1 = [CHR ''+''] \<or> s1 = [CHR ''-'']" "matches unsignedLiteral b"
    unfolding floatLiteral_def matches_Times sign_matches by blast
  have t: "t = s1 @ b @ drop n t"
    using sb(1) by (metis append_take_drop_id append.assoc)
  have ns: "numericStart (b @ drop n t)"
    using sb(3) by (intro numericStart_append unsignedLiteral_start)
  show "numericStart (unsign (trimStart s))"
  proof (cases "s1 = []")
    case True
    then have "t = b @ drop n t" using t by simp
    then show ?thesis
      using ns numericStart_no_sign [OF ns] unfolding t_def [symmetric] by simp
  next
    case False
    then obtain c where "s1 = [c]" "c = CHR ''+'' \<or> c = CHR ''-''"
      using sb(2) by auto
    note c = this
    have sg: "unsign (c # x) = x" for x
      using c(2) by (auto simp: unsign_def)
    have "t = c # (b @ drop n t)"
      using t c(1) by simp
    then have "unsign t = unsign (c # (b @ drop n t))"
      by (rule arg_cong)
    then have "unsign t = b @ drop n t"
      by (simp only: sg)
    then show ?thesis
      using ns unfolding t_def [symmetric] by simp
  qed
next
  define t where "t = trimStart s"
  assume "numericStart (unsign (trimStart s))"
  then obtain n where n: "n \<le> length (unsign t)" "matches unsignedLiteral (take n (unsign t))"
    unfolding t_def [symmetric] using numericStart_literal by blast
  show "hasFloatLiteralPrefix s"
  proof (cases "unsign t = t")
    case True
    have "matches floatLiteral ([] @ take n t)"
      unfolding floatLiteral_def using n(2) True
      by (intro matches_TimesI) (simp_all add: sign_matches del: matches.simps)
    then have "isFloatLiteral (take n t)" "n \<in> {..length t}"
      using n(1) True by (simp_all add: isFloatLiteral_def del: matches.simps)
    then show ?thesis
      unfolding hasFloatLiteralPrefix_def t_def [symmetric] by (rule bexI [of _ n])
  next
    case False
    then obtain c r where cr: "t = c # r" "c = CHR ''+'' \<or> c = CHR ''-''" "unsign t = r"
      by (auto simp: unsign_def split: list.splits if_splits)
    have "matches floatLiteral ([c] @ take n r)"
      unfolding floatLiteral_def using n(2) cr
      by (intro matches_TimesI) (auto simp add: sign_matches simp del: matches.simps)
    then have "matches floatLiteral (take (Suc n) t)"
      using cr(1) by (simp del: matches.simps)
    moreover have "Suc n \<le> length t"
      using n(1) cr by simp
    ultimately have "isFloatLiteral (take (Suc n) t)" "Suc n \<in> {..length t}"
      by (simp_all add: isFloatLiteral_def del: matches.simps take_Suc_Cons)
    then show ?thesis
      unfolding hasFloatLiteralPrefix_def t_def [symmetric] by (rule bexI [of _ "Suc n"])
  qed
qed

lemma scanDecimal_None_iff:
  "scanDecimal u = None \<longleftrightarrow>
     \<not> (case u of [] \<Rightarrow> False
         | c # r \<Rightarrow> isDigit c
             \<or> (c = CHR ''.'' \<and> (case r of [] \<Rightarrow> False | d # _ \<Rightarrow> isDigit d)))"
proof (cases u)
  case Nil
  then show ?thesis by (simp add: scanDecimal_def)
next
  case (Cons c r)
  show ?thesis
  proof (cases "isDigit c")
    case True
    then show ?thesis
      using Cons by (simp add: scanDecimal_def Let_def split: list.splits)
  next
    case False
    then show ?thesis
      using Cons by (cases r) (auto simp: scanDecimal_def Let_def)
  qed
qed

lemma parseFloat_unparseable:
  assumes "\<not> hasFloatLiteralPrefix s"
  shows "parseFloat roundMV s = NaN"
proof -
  have u: "(case trimStart s of [] \<Rightarrow> []
            | c # r \<Rightarrow> if c = CHR ''+'' \<or> c = CHR ''-'' then r else trimStart s)
           = unsign (trimStart s)"
    by (simp add: unsign_def)
  from assms have n: "\<not> numericStart (unsign (trimStart s))"
    by (simp add: hasFloatLiteralPrefix_iff)
  then have "\<not> startsWith (unsign (trimStart s)) ''Infinity''"
    and "scanDecimal (unsign (trimStart s)) = None"
    by (simp_all add: numericStart_def startsWith_def scanDecimal_None_iff)
  then show ?thesis
    unfolding parseFloat_def Let_def u by simp
qed

lemma parseFloat_parseable:
  assumes "hasFloatLiteralPrefix s" and "\<And>q. roundMV q \<noteq> NaN"
  shows "parseFloat roundMV s \<noteq> NaN"
proof -
  have u: "(case trimStart s of [] \<Rightarrow> []
            | c # r \<Rightarrow> if c = CHR ''+'' \<or> c = CHR ''-'' then r else trimStart s)
           = unsign (trimStart s)"
    by (simp add: unsign_def)
  from assms(1) have n: "numericStart (unsign (trimStart s))"
    by (simp add: hasFloatLiteralPrefix_iff)
  show ?thesis
  proof (cases "startsWith (unsign (trimStart s)) ''Infinity''")
    case True
    then show ?thesis
      unfolding parseFloat_def Let_def u by simp
  next
    case False
    with n have "scanDecimal (unsign (trimStart s)) \<noteq> None"
      by (simp add: numericStart_def startsWith_def scanDecimal_None_iff)
    then show ?thesis
      unfolding parseFloat_def Let_def u using False assms(2) by auto
  qed
qed


text \<open>
  The number \<open>parseFloat\<close> reads. The value of the digits \<open>ip\<close>, the fraction digits
  \<open>fp\<close> and the exponent \<open>e\<close> is the integer part plus the fraction, times ten to the
  \<open>e\<close>; and text after the digits that cannot continue a literal is ignored.
\<close>

lemma digitsValue_foldl:
  "foldl (\<lambda>n c. 10 * n + (of_char c - 48)) n b
     = n * 10 ^ length b + foldl (\<lambda>n c. 10 * n + (of_char c - 48)) (0::nat) b"
proof (induction b arbitrary: n)
  case Nil
  then show ?case by simp
next
  case (Cons x xs)
  show ?case
    using Cons [of "10 * n + (of_char x - 48)"] Cons [of "of_char x - 48"]
    by (simp add: algebra_simps)
qed

lemma digitsValue_append:
  "digitsValue (a @ b) = digitsValue a * 10 ^ length b + digitsValue b"
  unfolding digitsValue_def foldl_append by (rule digitsValue_foldl)

lemma decimalValue_as_power_int:
  "decimalValue ip fp e = of_nat (digitsValue (ip @ fp)) * 10 powi (e - int (length fp))"
  by (simp add: decimalValue_def Let_def power_int_def field_simps)

lemma decimalValue_eq:
  "decimalValue ip fp e =
     (of_nat (digitsValue ip) + of_nat (digitsValue fp) / 10 ^ length fp) * 10 powi e"
proof -
  have "(10::rat) powi (e - int (length fp)) = 10 powi e / 10 ^ length fp"
    by (simp add: power_int_diff)
  then show ?thesis
    unfolding decimalValue_as_power_int digitsValue_append
    by (simp add: field_simps)
qed

lemma parseFloat_trailing_text:
  assumes "ip \<noteq> []" and "list_all isDigit ip"
    and "\<not> isDigit c" and "c \<noteq> CHR ''.''" and "c \<noteq> CHR ''e''" and "c \<noteq> CHR ''E''"
  shows "parseFloat roundMV (ip @ c # r) = roundMV (of_nat (digitsValue ip))"
proof -
  obtain d ds where ip: "ip = d # ds"
    using assms(1) by (cases ip) auto
  then have d: "isDigit d"
    using assms(2) by simp
  then have nd: "\<not> isWhiteSpace d" "d \<noteq> CHR ''+''" "d \<noteq> CHR ''-''" "d \<noteq> CHR ''I''"
    by (auto simp: isDigit_def isWhiteSpace_def)
  have t: "trimStart (ip @ c # r) = ip @ c # r"
    using nd(1) by (simp add: trimStart_def ip)
  have i: "\<not> startsWith (ip @ c # r) ''Infinity''"
    using nd(4) by (simp add: startsWith_def ip)
  have tw: "takeWhile isDigit (ip @ c # r) = ip" "dropWhile isDigit (ip @ c # r) = c # r"
    using assms(2,3) by (simp_all add: takeWhile_all dropWhile_all)
  have "scanDecimal (ip @ c # r) = Some (ip, [], 0)"
    unfolding scanDecimal_def tw Let_def
    using assms(1,4,5,6) by (simp add: scanExponent_def)
  moreover have "decimalValue ip [] 0 = of_nat (digitsValue ip)"
    by (simp add: decimalValue_def)
  ultimately show ?thesis
    unfolding parseFloat_def t Let_def using nd(2,3) i by (simp add: ip)
qed

lemma parseFloat_examples:
  "parseFloat Finite ''72.5'' = Finite (145 / 2)
   \<and> parseFloat Finite ''1.5e1'' = Finite 15
   \<and> parseFloat Finite ''25e-1'' = Finite (5 / 2)
   \<and> parseFloat Finite ''-.5'' = Finite (- 1 / 2)
   \<and> parseFloat Finite ''  14px'' = Finite 14
   \<and> parseFloat Finite ''1e'' = Finite 1
   \<and> parseFloat Finite ''-Infinity'' = NegInfinity
   \<and> parseFloat Finite ''.'' = NaN
   \<and> parseFloat Finite ''abc'' = NaN"
  by code_simp

text \<open>
  What \<open>validateNumber\<close> does, case by case. If no prefix of the value, leading white
  space skipped, is a floating-point literal, the result is the error \<open>Invalid number\<close>.
  Otherwise \<open>parseFloat\<close> yields a number, and it is checked against the bounds the option
  declares, inclusively: below the minimum the result is an error whose message names the
  minimum, above the maximum an error whose message names the maximum, and within the
  bounds the result is valid. (The engine's rounding of a literal to a double never gives
  NaN; that is the assumption on \<open>roundMV\<close>.)
\<close>

lemma validateNumber_cases:
  assumes "\<And>q. roundMV q \<noteq> NaN"
  shows "(\<not> hasFloatLiteralPrefix v \<longrightarrow>
            validateNumber roundMV numberToString v (Some option) =
              invalid (''Invalid number: '' @ [CHR 0x27] @ v @ [CHR 0x27]) Error)
    \<and> (hasFloatLiteralPrefix v \<longrightarrow>
          parseFloat roundMV v \<noteq> NaN
          \<and> (\<forall>m. opt_minimum option = Some m \<and> lessThan (parseFloat roundMV v) m \<longrightarrow>
                validateNumber roundMV numberToString v (Some option) =
                  invalid (''Value '' @ numberToString (parseFloat roundMV v)
                             @ '' is below minimum '' @ numberToString m) Error)
          \<and> (\<forall>M. opt_maximum option = Some M \<and> greaterThan (parseFloat roundMV v) M
                   \<and> (\<forall>m. opt_minimum option = Some m \<longrightarrow> \<not> lessThan (parseFloat roundMV v) m) \<longrightarrow>
                validateNumber roundMV numberToString v (Some option) =
                  invalid (''Value '' @ numberToString (parseFloat roundMV v)
                             @ '' is above maximum '' @ numberToString M) Error)
          \<and> ((\<forall>m. opt_minimum option = Some m \<longrightarrow> lessEq m (parseFloat roundMV v))
              \<and> (\<forall>M. opt_maximum option = Some M \<longrightarrow> lessEq (parseFloat roundMV v) M) \<longrightarrow>
                validateNumber roundMV numberToString v (Some option) = valid))"
proof (intro conjI impI allI)
  assume "\<not> hasFloatLiteralPrefix v"
  then have "parseFloat roundMV v = NaN"
    by (rule parseFloat_unparseable)
  then show "validateNumber roundMV numberToString v (Some option) =
      invalid (''Invalid number: '' @ [CHR 0x27] @ v @ [CHR 0x27]) Error"
    by (simp add: validateNumber_def isNaN_def)
next
  assume "hasFloatLiteralPrefix v"
  then show num: "parseFloat roundMV v \<noteq> NaN"
    using assms by (rule parseFloat_parseable)
  {
    fix m
    assume "opt_minimum option = Some m \<and> lessThan (parseFloat roundMV v) m"
    then show "validateNumber roundMV numberToString v (Some option) =
        invalid (''Value '' @ numberToString (parseFloat roundMV v)
                   @ '' is below minimum '' @ numberToString m) Error"
      using num by (simp add: validateNumber_def isNaN_def)
  }
  {
    fix M
    assume a: "opt_maximum option = Some M \<and> greaterThan (parseFloat roundMV v) M
               \<and> (\<forall>m. opt_minimum option = Some m \<longrightarrow> \<not> lessThan (parseFloat roundMV v) m)"
    then have "(case opt_minimum option of None \<Rightarrow> None
                | Some minimum \<Rightarrow>
                    if lessThan (parseFloat roundMV v) minimum then Some minimum else None) = None"
      by (simp split: option.splits)
    then show "validateNumber roundMV numberToString v (Some option) =
        invalid (''Value '' @ numberToString (parseFloat roundMV v)
                   @ '' is above maximum '' @ numberToString M) Error"
      using num a by (simp add: validateNumber_def isNaN_def)
  }
  assume b: "(\<forall>m. opt_minimum option = Some m \<longrightarrow> lessEq m (parseFloat roundMV v))
             \<and> (\<forall>M. opt_maximum option = Some M \<longrightarrow> lessEq (parseFloat roundMV v) M)"
  then have "(case opt_minimum option of None \<Rightarrow> None
              | Some minimum \<Rightarrow>
                  if lessThan (parseFloat roundMV v) minimum then Some minimum else None) = None"
    and "(case opt_maximum option of None \<Rightarrow> None
          | Some maximum \<Rightarrow>
              if greaterThan (parseFloat roundMV v) maximum then Some maximum else None) = None"
    by (auto simp: lessEq_def greaterThan_def split: option.splits)
  then show "validateNumber roundMV numberToString v (Some option) = valid"
    using num by (simp add: validateNumber_def isNaN_def)
qed

lemma validateNumber_cases_examples:
  "validateNumber Finite sampleNumberToString ''abc''
     (Some ((sampleOption TNumber)
              \<lparr>opt_minimum := Some (Finite 8), opt_maximum := Some (Finite 72)\<rparr>))
     = invalid (''Invalid number: '' @ [CHR 0x27] @ ''abc'' @ [CHR 0x27]) Error
   \<and> validateNumber Finite sampleNumberToString ''4''
     (Some ((sampleOption TNumber)
              \<lparr>opt_minimum := Some (Finite 8), opt_maximum := Some (Finite 72)\<rparr>))
     = invalid ''Value 4 is below minimum 8'' Error
   \<and> validateNumber Finite sampleNumberToString ''96''
     (Some ((sampleOption TNumber)
              \<lparr>opt_minimum := Some (Finite 8), opt_maximum := Some (Finite 72)\<rparr>))
     = invalid ''Value 96 is above maximum 72'' Error
   \<and> validateNumber Finite sampleNumberToString ''72.0''
     (Some ((sampleOption TNumber)
              \<lparr>opt_minimum := Some (Finite 8), opt_maximum := Some (Finite 72)\<rparr>))
     = valid"
proof -
  define opt where "opt = (sampleOption TNumber)
                            \<lparr>opt_minimum := Some (Finite 8), opt_maximum := Some (Finite 72)\<rparr>"
  have r: "Finite q \<noteq> NaN" for q
    by simp
  have mn: "opt_minimum opt = Some (Finite 8)" and mx: "opt_maximum opt = Some (Finite 72)"
    by (simp_all add: opt_def sampleOption_def)
  have h1: "\<not> hasFloatLiteralPrefix ''abc''"
    unfolding hasFloatLiteralPrefix_iff by code_simp
  have h2: "hasFloatLiteralPrefix ''4''"
    unfolding hasFloatLiteralPrefix_iff by code_simp
  have v2: "parseFloat Finite ''4'' = Finite 4"
    by code_simp
  have h3: "hasFloatLiteralPrefix ''96''"
    unfolding hasFloatLiteralPrefix_iff by code_simp
  have v3: "parseFloat Finite ''96'' = Finite 96"
    by code_simp
  have h4: "hasFloatLiteralPrefix ''72.0''"
    unfolding hasFloatLiteralPrefix_iff by code_simp
  have v4: "parseFloat Finite ''72.0'' = Finite 72"
    by code_simp
  have s4: "sampleNumberToString (Finite 4) = ''4''"
    and s8: "sampleNumberToString (Finite 8) = ''8''"
    and s96: "sampleNumberToString (Finite 96) = ''96''"
    and s72: "sampleNumberToString (Finite 72) = ''72''"
    by (simp_all add: sampleNumberToString_def)
  note N1 = validateNumber_cases [of Finite "''abc''" sampleNumberToString opt, OF r]
  note N2 = mp [OF conjunct2 [OF validateNumber_cases
                  [of Finite "''4''" sampleNumberToString opt, OF r]] h2]
  note N3 = mp [OF conjunct2 [OF validateNumber_cases
                  [of Finite "''96''" sampleNumberToString opt, OF r]] h3]
  note N4 = mp [OF conjunct2 [OF validateNumber_cases
                  [of Finite "''72.0''" sampleNumberToString opt, OF r]] h4]
  have a: "validateNumber Finite sampleNumberToString ''abc'' (Some opt)
             = invalid (''Invalid number: '' @ [CHR 0x27] @ ''abc'' @ [CHR 0x27]) Error"
    using conjunct1 [OF N1] h1 by (rule mp)
  have p2: "opt_minimum opt = Some (Finite 8) \<and> lessThan (parseFloat Finite ''4'') (Finite 8)"
    unfolding v2 using mn by simp
  have "validateNumber Finite sampleNumberToString ''4'' (Some opt)
          = invalid (''Value '' @ sampleNumberToString (parseFloat Finite ''4'')
                       @ '' is below minimum '' @ sampleNumberToString (Finite 8)) Error"
    using spec [OF conjunct1 [OF conjunct2 [OF N2]], of "Finite 8"] p2 by (rule mp)
  then have b: "validateNumber Finite sampleNumberToString ''4'' (Some opt)
                  = invalid ''Value 4 is below minimum 8'' Error"
    unfolding v2 s4 s8 by simp
  have p3: "opt_maximum opt = Some (Finite 72) \<and> greaterThan (parseFloat Finite ''96'') (Finite 72)
        \<and> (\<forall>m. opt_minimum opt = Some m \<longrightarrow> \<not> lessThan (parseFloat Finite ''96'') m)"
    unfolding v3 using mn mx by (simp add: greaterThan_def)
  have "validateNumber Finite sampleNumberToString ''96'' (Some opt)
          = invalid (''Value '' @ sampleNumberToString (parseFloat Finite ''96'')
                       @ '' is above maximum '' @ sampleNumberToString (Finite 72)) Error"
    using spec [OF conjunct1 [OF conjunct2 [OF conjunct2 [OF N3]]], of "Finite 72"] p3
    by (rule mp)
  then have c: "validateNumber Finite sampleNumberToString ''96'' (Some opt)
                  = invalid ''Value 96 is above maximum 72'' Error"
    unfolding v3 s96 s72 by simp
  have p4: "(\<forall>m. opt_minimum opt = Some m \<longrightarrow> lessEq m (parseFloat Finite ''72.0''))
        \<and> (\<forall>M. opt_maximum opt = Some M \<longrightarrow> lessEq (parseFloat Finite ''72.0'') M)"
    unfolding v4 using mn mx by (simp add: lessEq_def)
  have d: "validateNumber Finite sampleNumberToString ''72.0'' (Some opt) = valid"
    using conjunct2 [OF conjunct2 [OF conjunct2 [OF N4]]] p4 by (rule mp)
  show ?thesis
    using a b c d unfolding opt_def by (intro conjI)
qed

text \<open>
  C9: a value that cannot be parsed as a floating-point literal is an error; a value that
  can is checked against the declared bounds, inclusively, and a violation is an error
  whose message names the bound. The second half holds of the code (\<open>validateNumber_cases\<close>).
  The first half does not: the code rejects a value only when \<open>parseFloat\<close> finds no
  number at its start. \<open>12abc\<close> is not a floating-point literal (the sibling
  \<open>validateDuration\<close>, whose pattern is anchored at both ends, rejects it); \<open>parseFloat\<close>
  reads it as 12 and ignores the rest, so it is valid as a number, with or without the
  bounds 8 and 72.
\<close>

theorem trailing_text_is_accepted:
  "isFloatLiteral ''12abc'' = False
   \<and> parseFloat Finite ''12abc'' = Finite 12
   \<and> validateNumber Finite sampleNumberToString ''12abc'' None = valid
   \<and> validateValue Finite sampleNumberToString sampleSchema ''font-size'' ''12abc'' = valid
   \<and> isValid (validateDuration ''12abc'') = False"
  by code_simp

section \<open>The scan of a key/value line and its regular expression\<close>

text \<open>
  \<open>KEY_VALUE_exec\<close> finds the groups of \<open>KEY_VALUE_REGEX\<close> by scanning the line once.
  The facts below tie it to the expression: the scan succeeds exactly on the lines the
  expression matches, and whatever way a line is split along the expression, the indent and
  the key of the scan are those of the split.
\<close>

lemma alpha_not_space: "isAlpha c \<Longrightarrow> \<not> isWhiteSpace c"
  by (auto simp: isAlpha_def isWhiteSpace_def)

lemma space_not_keychar: "isWhiteSpace c \<Longrightarrow> \<not> isKeyChar c"
  by (auto simp: isKeyChar_def isAlpha_def isDigit_def isWhiteSpace_def)

lemma equals_not_keychar: "\<not> isKeyChar CHR ''=''"
  by (simp add: isKeyChar_def isAlpha_def isDigit_def)

lemma equals_not_space: "\<not> isWhiteSpace CHR ''=''"
  by (simp add: isWhiteSpace_def)

lemma KEY_VALUE_REGEX_matches:
  "matches KEY_VALUE_REGEX line \<longleftrightarrow>
     (\<exists>w1 a k w2 w3 v w4.
        line = w1 @ a # k @ w2 @ CHR ''='' # w3 @ v @ w4
        \<and> list_all isWhiteSpace w1 \<and> isAlpha a \<and> list_all isKeyChar k
        \<and> list_all isWhiteSpace w2 \<and> list_all isWhiteSpace w3
        \<and> list_all (\<lambda>c. \<not> isLineTerminator c) v \<and> list_all isWhiteSpace w4)"
proof
  let ?R6 = "Times (Star (Atom (\<lambda>c. \<not> isLineTerminator c))) (Star (Atom isWhiteSpace))"
  let ?R5 = "Times (Star (Atom isWhiteSpace)) ?R6"
  let ?R4 = "Times (Chr CHR ''='') ?R5"
  let ?R3 = "Times (Star (Atom isWhiteSpace)) ?R4"
  let ?K = "Times (Atom isAlpha) (Star (Atom isKeyChar))"
  let ?R2 = "Times ?K ?R3"
  assume "matches KEY_VALUE_REGEX line"
  then have "matches (Times (Star (Atom isWhiteSpace)) ?R2) line"
    by (simp only: KEY_VALUE_REGEX_def)
  then obtain w1 x1 where 1: "line = w1 @ x1" "list_all isWhiteSpace w1" "matches ?R2 x1"
    unfolding matches_Times [of "Star (Atom isWhiteSpace)"] matches_Star_Atom by blast
  from 1(3) obtain ak x2 where 2: "x1 = ak @ x2" "matches ?K ak" "matches ?R3 x2"
    unfolding matches_Times [of ?K] by blast
  from 2(2) obtain a k where 3: "ak = a # k" "isAlpha a" "list_all isKeyChar k"
    unfolding matches_Times [of "Atom isAlpha"] matches_Star_Atom matches_Atom by auto
  from 2(3) obtain w2 x3 where 4: "x2 = w2 @ x3" "list_all isWhiteSpace w2" "matches ?R4 x3"
    unfolding matches_Times [of "Star (Atom isWhiteSpace)"] matches_Star_Atom by blast
  from 4(3) obtain x4 where 5: "x3 = CHR ''='' # x4" "matches ?R5 x4"
    unfolding matches_Chr_Times by blast
  from 5(2) obtain w3 x5 where 6: "x4 = w3 @ x5" "list_all isWhiteSpace w3" "matches ?R6 x5"
    unfolding matches_Times [of "Star (Atom isWhiteSpace)"] matches_Star_Atom by blast
  from 6(3) obtain v w4 where 7: "x5 = v @ w4" "list_all (\<lambda>c. \<not> isLineTerminator c) v"
    "list_all isWhiteSpace w4"
    unfolding matches_Times [of "Star (Atom (\<lambda>c. \<not> isLineTerminator c))"] matches_Star_Atom
    by blast
  have "line = w1 @ a # k @ w2 @ CHR ''='' # w3 @ v @ w4"
    by (simp only: 1(1) 2(1) 3(1) 4(1) 5(1) 6(1) 7(1) append_Cons append_assoc)
  with 1(2) 3(2,3) 4(2) 6(2) 7(2,3)
  show "\<exists>w1 a k w2 w3 v w4.
        line = w1 @ a # k @ w2 @ CHR ''='' # w3 @ v @ w4
        \<and> list_all isWhiteSpace w1 \<and> isAlpha a \<and> list_all isKeyChar k
        \<and> list_all isWhiteSpace w2 \<and> list_all isWhiteSpace w3
        \<and> list_all (\<lambda>c. \<not> isLineTerminator c) v \<and> list_all isWhiteSpace w4"
    by blast
next
  assume "\<exists>w1 a k w2 w3 v w4.
        line = w1 @ a # k @ w2 @ CHR ''='' # w3 @ v @ w4
        \<and> list_all isWhiteSpace w1 \<and> isAlpha a \<and> list_all isKeyChar k
        \<and> list_all isWhiteSpace w2 \<and> list_all isWhiteSpace w3
        \<and> list_all (\<lambda>c. \<not> isLineTerminator c) v \<and> list_all isWhiteSpace w4"
  then obtain w1 a k w2 w3 v w4 where
    l: "line = w1 @ a # k @ w2 @ CHR ''='' # w3 @ v @ w4"
    and c: "list_all isWhiteSpace w1" "isAlpha a" "list_all isKeyChar k"
      "list_all isWhiteSpace w2" "list_all isWhiteSpace w3"
      "list_all (\<lambda>c. \<not> isLineTerminator c) v" "list_all isWhiteSpace w4"
    by blast
  have m: "matches (Star (Atom isWhiteSpace)) w1" "matches (Atom isAlpha) [a]"
    "matches (Star (Atom isKeyChar)) k" "matches (Star (Atom isWhiteSpace)) w2"
    "matches (Chr CHR ''='') [CHR ''='']" "matches (Star (Atom isWhiteSpace)) w3"
    "matches (Star (Atom (\<lambda>c. \<not> isLineTerminator c))) v" "matches (Star (Atom isWhiteSpace)) w4"
    using c by (simp_all add: matches_Star_Atom del: matches.simps)
  have "matches KEY_VALUE_REGEX (w1 @ ([a] @ k) @ w2 @ [CHR ''=''] @ w3 @ v @ w4)"
    unfolding KEY_VALUE_REGEX_def by (intro matches_TimesI m)
  then show "matches KEY_VALUE_REGEX line"
    by (simp only: l append_Cons append_Nil append_assoc)
qed


lemma trimEnd_spaces: "list_all isWhiteSpace w \<Longrightarrow> trimEnd (z @ w) = trimEnd z"
proof -
  assume "list_all isWhiteSpace w"
  then have "list_all isWhiteSpace (rev w)"
    by (simp add: list_all_iff)
  then have "dropWhile isWhiteSpace (rev w @ rev z) = dropWhile isWhiteSpace (rev z)"
    by (rule dropWhile_all)
  then show ?thesis
    by (simp add: trimEnd_def)
qed

lemma trimEnd_subset: "set (trimEnd z) \<subseteq> set z"
  unfolding trimEnd_def using set_dropWhileD [of _ isWhiteSpace "rev z"] by auto

lemma value_group_chars:
  assumes "list_all isWhiteSpace w3" and "list_all isWhiteSpace w4"
  shows "set (trimEnd (dropWhile isWhiteSpace (w3 @ v @ w4))) \<subseteq> set v"
proof -
  have d: "dropWhile isWhiteSpace (w3 @ v @ w4) = dropWhile isWhiteSpace (v @ w4)"
    using assms(1) by (rule dropWhile_all)
  show ?thesis
  proof (cases "list_all isWhiteSpace v")
    case True
    then have "list_all isWhiteSpace (v @ w4)"
      using assms(2) by simp
    then have e: "dropWhile isWhiteSpace (v @ w4) = []"
      by (simp add: dropWhile_eq_Nil_conv list_all_iff)
    have "trimEnd [] = []"
      by (simp add: trimEnd_def)
    then show ?thesis
      unfolding d e by simp
  next
    case False
    then have "dropWhile isWhiteSpace (v @ w4) = dropWhile isWhiteSpace v @ w4"
      by (auto simp: dropWhile_append list_all_iff)
    then have "trimEnd (dropWhile isWhiteSpace (v @ w4)) = trimEnd (dropWhile isWhiteSpace v)"
      using trimEnd_spaces [OF assms(2)] by simp
    moreover have "set (trimEnd (dropWhile isWhiteSpace v)) \<subseteq> set v"
      using trimEnd_subset [of "dropWhile isWhiteSpace v"] set_dropWhileD [of _ isWhiteSpace v]
      by blast
    ultimately show ?thesis
      unfolding d by simp
  qed
qed

lemma KEY_VALUE_exec_Some:
  assumes "line = w1 @ a # k @ w2 @ CHR ''='' # w3 @ v @ w4"
    and "list_all isWhiteSpace w1" and "isAlpha a" and "list_all isKeyChar k"
    and "list_all isWhiteSpace w2" and "list_all isWhiteSpace w3"
    and "list_all (\<lambda>c. \<not> isLineTerminator c) v" and "list_all isWhiteSpace w4"
  shows "KEY_VALUE_exec line
           = Some (w1, a # k, trimEnd (dropWhile isWhiteSpace (w3 @ v @ w4)))"
proof -
  have na: "\<not> isWhiteSpace a"
    using assms(3) by (rule alpha_not_space)
  have t1: "takeWhile isWhiteSpace line = w1"
    unfolding assms(1) using assms(2) na by (rule takeWhile_all)
  have d1: "dropWhile isWhiteSpace line = a # k @ w2 @ CHR ''='' # w3 @ v @ w4"
    unfolding assms(1) using na by (simp add: dropWhile_all [OF assms(2)])
  have d2: "dropWhile isKeyChar (k @ w2 @ CHR ''='' # w3 @ v @ w4) = w2 @ CHR ''='' # w3 @ v @ w4"
  proof (cases w2)
    case Nil
    then show ?thesis
      using equals_not_keychar by (simp add: dropWhile_all [OF assms(4)])
  next
    case (Cons c cs)
    then have "\<not> isKeyChar c"
      using assms(5) by (simp add: space_not_keychar)
    then show ?thesis
      using Cons by (simp add: dropWhile_all [OF assms(4)])
  qed
  have t2: "takeWhile isKeyChar (k @ w2 @ CHR ''='' # w3 @ v @ w4) = k"
  proof -
    have "takeWhile isKeyChar (k @ w2 @ CHR ''='' # w3 @ v @ w4)
            @ dropWhile isKeyChar (k @ w2 @ CHR ''='' # w3 @ v @ w4)
          = k @ w2 @ CHR ''='' # w3 @ v @ w4"
      by (rule takeWhile_dropWhile_id)
    then show ?thesis
      unfolding d2 by simp
  qed
  have d3: "dropWhile isWhiteSpace (w2 @ CHR ''='' # w3 @ v @ w4) = CHR ''='' # w3 @ v @ w4"
    using equals_not_space by (simp add: dropWhile_all [OF assms(5)])
  have "set (trimEnd (dropWhile isWhiteSpace (w3 @ v @ w4))) \<subseteq> set v"
    using assms(6,8) by (rule value_group_chars)
  then have nl: "list_all (\<lambda>c. \<not> isLineTerminator c) (trimEnd (dropWhile isWhiteSpace (w3 @ v @ w4)))"
    using assms(7) by (auto simp: list_all_iff)
  show ?thesis
    unfolding KEY_VALUE_exec_def Let_def t1 d1 list.case
    using assms(3) nl by (simp add: t2 d2 d3)
qed

lemma KEY_VALUE_exec_decomp:
  assumes "KEY_VALUE_exec line = Some (indent, key, v)"
  shows "\<exists>k w2 w3 w4.
           line = indent @ key @ w2 @ CHR ''='' # w3 @ v @ w4
           \<and> list_all isWhiteSpace indent \<and> key = hd key # k \<and> isAlpha (hd key)
           \<and> list_all isKeyChar k \<and> list_all isWhiteSpace w2 \<and> list_all isWhiteSpace w3
           \<and> list_all (\<lambda>c. \<not> isLineTerminator c) v \<and> list_all isWhiteSpace w4"
proof -
  from assms obtain c r where cr: "dropWhile isWhiteSpace line = c # r" "isAlpha c"
    by (auto simp: KEY_VALUE_exec_def Let_def split: list.splits if_splits)
  with assms obtain r' where r': "dropWhile isWhiteSpace (dropWhile isKeyChar r) = CHR ''='' # r'"
    by (auto simp: KEY_VALUE_exec_def Let_def split: list.splits if_splits)
  from assms cr r' have out: "indent = takeWhile isWhiteSpace line" "key = c # takeWhile isKeyChar r"
    "v = trimEnd (dropWhile isWhiteSpace r')" "list_all (\<lambda>c. \<not> isLineTerminator c) v"
    by (auto simp: KEY_VALUE_exec_def Let_def split: if_splits)
  define w2 where "w2 = takeWhile isWhiteSpace (dropWhile isKeyChar r)"
  define w3 where "w3 = takeWhile isWhiteSpace r'"
  define w4 where "w4 = rev (takeWhile isWhiteSpace (rev (dropWhile isWhiteSpace r')))"
  have l1: "line = indent @ c # r"
    unfolding out(1) cr(1) [symmetric] by simp
  have l2: "r = takeWhile isKeyChar r @ w2 @ CHR ''='' # r'"
    unfolding w2_def r' [symmetric] by simp
  have l3: "r' = w3 @ v @ w4"
    unfolding w3_def w4_def out(3)
    using trimEnd_decomp [of "dropWhile isWhiteSpace r'"]
    by (metis takeWhile_dropWhile_id)
  have "line = indent @ key @ w2 @ CHR ''='' # w3 @ v @ w4"
    using l1 l2 l3 out(2) by (metis append_Cons append_assoc)
  moreover have "list_all isWhiteSpace indent" "list_all isKeyChar (takeWhile isKeyChar r)"
    "list_all isWhiteSpace w2" "list_all isWhiteSpace w3" "list_all isWhiteSpace w4"
    unfolding out(1) w2_def w3_def w4_def
    by (auto simp: list_all_iff dest: set_takeWhileD)
  moreover have "key = hd key # takeWhile isKeyChar r" "isAlpha (hd key)"
    using out(2) cr(2) by simp_all
  ultimately show ?thesis
    using out(4) by blast
qed

lemma KEY_VALUE_exec_iff: "KEY_VALUE_exec line \<noteq> None \<longleftrightarrow> matches KEY_VALUE_REGEX line"
proof
  assume "KEY_VALUE_exec line \<noteq> None"
  then obtain indent key v where "KEY_VALUE_exec line = Some (indent, key, v)"
    by (cases "KEY_VALUE_exec line") auto
  from KEY_VALUE_exec_decomp [OF this] obtain k w2 w3 w4 where
    "line = indent @ key @ w2 @ CHR ''='' # w3 @ v @ w4"
    "list_all isWhiteSpace indent" "key = hd key # k" "isAlpha (hd key)"
    "list_all isKeyChar k" "list_all isWhiteSpace w2" "list_all isWhiteSpace w3"
    "list_all (\<lambda>c. \<not> isLineTerminator c) v" "list_all isWhiteSpace w4"
    by blast
  moreover from this have "line = indent @ hd key # k @ w2 @ CHR ''='' # w3 @ v @ w4"
    by (metis append_Cons)
  ultimately show "matches KEY_VALUE_REGEX line"
    unfolding KEY_VALUE_REGEX_matches by blast
next
  assume "matches KEY_VALUE_REGEX line"
  then obtain w1 a k w2 w3 v w4 where
    "line = w1 @ a # k @ w2 @ CHR ''='' # w3 @ v @ w4"
    "list_all isWhiteSpace w1" "isAlpha a" "list_all isKeyChar k"
    "list_all isWhiteSpace w2" "list_all isWhiteSpace w3"
    "list_all (\<lambda>c. \<not> isLineTerminator c) v" "list_all isWhiteSpace w4"
    unfolding KEY_VALUE_REGEX_matches by blast
  then have "KEY_VALUE_exec line
               = Some (w1, a # k, trimEnd (dropWhile isWhiteSpace (w3 @ v @ w4)))"
    by (rule KEY_VALUE_exec_Some)
  then show "KEY_VALUE_exec line \<noteq> None"
    by simp
qed


end
